theory Spec2Isabelle
  imports Main "HOL-Library.Char_ord" "HOL-Library.List_Lexorder" "HOL-Library.AList"
begin

section \<open>PyVantagePro: archive retrieval and incremental update of the CSV store\<close>

text \<open>
  The development follows \<^verbatim>\<open>pyvantagepro/__main__.py\<close>: \<^verbatim>\<open>getarchives\<close>,
  \<^verbatim>\<open>update_cmd\<close> and the dispatch at the end of \<^verbatim>\<open>main\<close>.
  The helpers these functions import from \<^verbatim>\<open>pyvantagepro/utils.py\<close>
  (\<^verbatim>\<open>ListDict\<close>, \<^verbatim>\<open>csv_to_dict\<close>) and the device class of
  \<^verbatim>\<open>pyvantagepro/device.py\<close> are modelled from the specification; each such
  definition says so.

  Strings are \<^typ>\<open>string\<close>; they are compared as Python compares \<^verbatim>\<open>str\<close>:
  lexicographically by character code, a proper prefix being smaller.
\<close>

subsection \<open>Records, collections and exceptions\<close>

text \<open>
  A record is a Python \<^verbatim>\<open>dict\<close> from field name to text; the association list
  keeps the insertion order of the keys, which fixes the column order of the CSV text.
  A \<^verbatim>\<open>ListDict\<close> is a list of such records.
\<close>

type_synonym dict = "(string \<times> string) list"

type_synonym ListDict = "dict list"

datatype error =
    KeyError string
  | IndexError
  | ValueError string
  | FileNotFoundError string
  | FieldNotFoundError string
  | MalformedStoreError string
  | ConnectivityError string
  | PermissionError string

text \<open>\<^verbatim>\<open>record[key]\<close>: the value stored under the key, \<^verbatim>\<open>KeyError\<close> when absent.\<close>

definition getitem :: "dict \<Rightarrow> string \<Rightarrow> error + string" where
  "getitem r k = (case map_of r k of None \<Rightarrow> Inl (KeyError k) | Some v \<Rightarrow> Inr v)"

subsection \<open>\<^verbatim>\<open>ListDict.sorted_by\<close>\<close>

text \<open>
  Modelled from the spec: \<^verbatim>\<open>ListDict.sorted_by\<close> of \<^verbatim>\<open>pyvantagepro/utils.py\<close>,
  which is not among the source files. The specification (4.1) has it return a new
  collection ordered by the field's value, ascending unless \<^verbatim>\<open>reverse\<close> is requested,
  stable with respect to ties, and fail with \<^verbatim>\<open>FieldNotFoundError\<close> if any record lacks
  the field. The keys are read first, record by record (\<open>keyed\<close>); a descending stable
  sort is the ascending stable sort of the reversed list, reversed.
\<close>

fun keyed :: "string \<Rightarrow> ListDict \<Rightarrow> error + (string \<times> dict) list" where
  "keyed field [] = Inr []"
| "keyed field (r # rs) =
     (case map_of r field of
        None \<Rightarrow> Inl (FieldNotFoundError field)
      | Some k \<Rightarrow> (case keyed field rs of Inl e \<Rightarrow> Inl e | Inr ks \<Rightarrow> Inr ((k, r) # ks)))"

definition stable_sort :: "bool \<Rightarrow> (string \<times> dict) list \<Rightarrow> (string \<times> dict) list" where
  "stable_sort reverse ks =
     (if reverse then rev (sort_key fst (rev ks)) else sort_key fst ks)"

definition sorted_by :: "ListDict \<Rightarrow> string \<Rightarrow> bool \<Rightarrow> error + ListDict" where
  "sorted_by c field reverse =
     (case keyed field c of
        Inl e \<Rightarrow> Inl e
      | Inr ks \<Rightarrow> Inr (map snd (stable_sort reverse ks)))"

subsection \<open>The device\<close>

text \<open>
  A generator is the sequence of items a \<^verbatim>\<open>for\<close> loop pulls from it: \<open>Inr r\<close> is a
  record yielded, \<open>Inl e\<close> an exception raised by the generator instead of the next
  record (the loop never sees what would follow).

  The device \<^verbatim>\<open>vp\<close> is the collaborator behind the link. \<open>archive_source\<close> is what
  \<^verbatim>\<open>vp._get_archives_generator(start, stop)\<close> yields for a window;
  \<open>requests\<close> logs the windows asked of the device, oldest first.
\<close>

type_synonym generator = "(error + dict) list"

record 'dt device =
  archive_source :: "'dt option \<Rightarrow> 'dt option \<Rightarrow> generator"
  requests :: "('dt option \<times> 'dt option) list"

definition get_archives_generator ::
  "'dt device \<Rightarrow> 'dt option \<Rightarrow> 'dt option \<Rightarrow> generator \<times> 'dt device" where
  "get_archives_generator vp start_date stop_date =
     (archive_source vp start_date stop_date,
      vp\<lparr>requests := requests vp @ [(start_date, stop_date)]\<rparr>)"

subsection \<open>\<^verbatim>\<open>getarchives\<close>\<close>

text \<open>
  The command-line namespace \<^verbatim>\<open>args\<close>, with the attributes the two functions read
  and write; \<^verbatim>\<open>args.delim\<close> is the delimiter, one character, and \<^verbatim>\<open>args.db\<close>
  the path of the store.
\<close>

record 'dt args =
  debug :: bool
  delim :: char
  db :: string
  start :: "'dt option"
  stop :: "'dt option"

text \<open>
  The loop of \<^verbatim>\<open>getarchives\<close>:
  \<^verbatim>\<open>
    for step, record in enumerate(generator):
        pbar.update(step)
        if record['Datetime'] not in dates:
            archives.append(record)
            dates.append(record['Datetime'])
  \<close>
  The state of the loop is the pair of lists \<^verbatim>\<open>archives\<close> and \<^verbatim>\<open>dates\<close>;
  \<open>step\<close> is the index \<^verbatim>\<open>enumerate\<close> counts. The progress bar belongs to the
  \<^verbatim>\<open>progressbar\<close> library: \<open>pbar_update\<close> is \<^verbatim>\<open>pbar.update\<close>, from the value to
  the exception the call raises, if any. Starting and finishing the bar and the
  \<^verbatim>\<open>print\<close> calls after the loop write to the terminal only and are left out.
\<close>

fun archive_loop ::
  "(nat \<Rightarrow> error option) \<Rightarrow> nat \<Rightarrow> generator \<Rightarrow> ListDict \<Rightarrow> string list
     \<Rightarrow> error + ListDict \<times> string list" where
  "archive_loop pbar_update step [] archives dates = Inr (archives, dates)"
| "archive_loop pbar_update step (Inl e # gen) archives dates = Inl e"
| "archive_loop pbar_update step (Inr r # gen) archives dates =
     (case pbar_update step of
        Some e \<Rightarrow> Inl e
      | None \<Rightarrow>
          (case getitem r ''Datetime'' of
             Inl e \<Rightarrow> Inl e
           | Inr d \<Rightarrow>
               if d \<notin> set dates
               then archive_loop pbar_update (Suc step) gen (archives @ [r]) (dates @ [d])
               else archive_loop pbar_update (Suc step) gen archives dates))"

text \<open>
  Modelled from the spec: \<^verbatim>\<open>VantagePro2.get_archives\<close> of
  \<^verbatim>\<open>pyvantagepro/device.py\<close>, which is not among the source files. It is the fetch
  driver of the specification (4.4) with no progress sink: keep a collection
  \<open>accumulated\<close> and a set \<open>seen\<close> of \<^verbatim>\<open>Datetime\<close> values; a record whose
  \<^verbatim>\<open>Datetime\<close> is not in \<open>seen\<close> is appended and its \<^verbatim>\<open>Datetime\<close> added to
  \<open>seen\<close>, any other is discarded; at the end return
  \<^verbatim>\<open>accumulated.sorted_by('Datetime')\<close>.
\<close>

fun spec_fetch :: "generator \<Rightarrow> ListDict \<Rightarrow> string set \<Rightarrow> error + ListDict" where
  "spec_fetch [] accumulated seen = Inr accumulated"
| "spec_fetch (Inl e # gen) accumulated seen = Inl e"
| "spec_fetch (Inr r # gen) accumulated seen =
     (case map_of r ''Datetime'' of
        None \<Rightarrow> Inl (KeyError ''Datetime'')
      | Some d \<Rightarrow>
          if d \<in> seen then spec_fetch gen accumulated seen
          else spec_fetch gen (accumulated @ [r]) (insert d seen))"

definition get_archives ::
  "'dt device \<Rightarrow> 'dt option \<Rightarrow> 'dt option \<Rightarrow> (error + ListDict) \<times> 'dt device" where
  "get_archives vp start_date stop_date =
     (case get_archives_generator vp start_date stop_date of
        (gen, vp') \<Rightarrow>
          (case spec_fetch gen [] {} of
             Inl e \<Rightarrow> (Inl e, vp')
           | Inr accumulated \<Rightarrow> (sorted_by accumulated ''Datetime'' False, vp')))"

text \<open>
  \<^verbatim>\<open>getarchives\<close>. The parameter \<open>ProgressBar\<close> is the class of the library: the bar
  made with \<^verbatim>\<open>maxval=2600\<close> is \<open>ProgressBar 2600\<close>.
\<close>

definition getarchives ::
  "(nat \<Rightarrow> nat \<Rightarrow> error option) \<Rightarrow> 'dt args \<Rightarrow> 'dt device \<Rightarrow> (error + ListDict) \<times> 'dt device" where
  "getarchives ProgressBar args vp =
     (if debug args then get_archives vp (start args) (stop args)
      else
        (case get_archives_generator vp (start args) (stop args) of
           (generator, vp') \<Rightarrow>
             (case archive_loop (ProgressBar 2600) 0 generator [] [] of
                Inl e \<Rightarrow> (Inl e, vp')
              | Inr (archives, dates) \<Rightarrow> (sorted_by archives ''Datetime'' False, vp'))))"

subsection \<open>The CSV text of a collection\<close>

abbreviation LF :: char where "LF \<equiv> CHR 0x0A"

abbreviation DQ :: char where "DQ \<equiv> CHR 0x22"

text \<open>
  Modelled from the spec: \<^verbatim>\<open>ListDict.to_csv\<close> of \<^verbatim>\<open>pyvantagepro/utils.py\<close>,
  which is not among the source files (\<^verbatim>\<open>to_text(delimiter, include_header=true)\<close>
  in 4.1 of the specification). The text is a sequence of rows. The header row lists
  the field names in the order of the first record; every row carries the values of
  exactly these fields in this order, a record with a missing or an additional field
  fails with \<^verbatim>\<open>FieldNotFoundError\<close>. A value that holds the delimiter, a newline or
  a double quote is written between double quotes, its own double quotes doubled. A
  row is its fields separated by the delimiter and ended by a newline.

  The static schema that stands in for the first record of an empty collection has no
  field, and a row of no fields is no text: an empty collection is serialised to the
  empty text, with the header or without (the empty-window property of section 8 of
  the specification rests on it).
\<close>

fun escape_quotes :: "string \<Rightarrow> string" where
  "escape_quotes [] = []"
| "escape_quotes (c # cs) = (if c = DQ then DQ # DQ # escape_quotes cs else c # escape_quotes cs)"

definition needs_quotes :: "char \<Rightarrow> string \<Rightarrow> bool" where
  "needs_quotes d v = (d \<in> set v \<or> LF \<in> set v \<or> DQ \<in> set v)"

definition encode_field :: "char \<Rightarrow> string \<Rightarrow> string" where
  "encode_field d v = (if needs_quotes d v then DQ # escape_quotes v @ [DQ] else v)"

fun encode_row :: "char \<Rightarrow> string list \<Rightarrow> string" where
  "encode_row d [] = []"
| "encode_row d [v] = encode_field d v @ [LF]"
| "encode_row d (v # w # vs) = encode_field d v @ d # encode_row d (w # vs)"

definition fieldnames :: "ListDict \<Rightarrow> string list" where
  "fieldnames c = (case c of [] \<Rightarrow> [] | r # _ \<Rightarrow> map fst r)"

fun values_of :: "string list \<Rightarrow> dict \<Rightarrow> error + string list" where
  "values_of [] r = Inr []"
| "values_of (n # ns) r =
     (case map_of r n of
        None \<Rightarrow> Inl (FieldNotFoundError n)
      | Some v \<Rightarrow> (case values_of ns r of Inl e \<Rightarrow> Inl e | Inr vs \<Rightarrow> Inr (v # vs)))"

definition row_of :: "string list \<Rightarrow> dict \<Rightarrow> error + string list" where
  "row_of names r =
     (case find (\<lambda>k. k \<notin> set names) (map fst r) of
        Some k \<Rightarrow> Inl (FieldNotFoundError k)
      | None \<Rightarrow> values_of names r)"

fun rows_of :: "string list \<Rightarrow> ListDict \<Rightarrow> error + string list list" where
  "rows_of names [] = Inr []"
| "rows_of names (r # c) =
     (case row_of names r of
        Inl e \<Rightarrow> Inl e
      | Inr row \<Rightarrow> (case rows_of names c of Inl e \<Rightarrow> Inl e | Inr rows \<Rightarrow> Inr (row # rows)))"

definition to_csv :: "ListDict \<Rightarrow> char \<Rightarrow> bool \<Rightarrow> error + string" where
  "to_csv c delimiter header =
     (case rows_of (fieldnames c) c of
        Inl e \<Rightarrow> Inl e
      | Inr rows \<Rightarrow>
          Inr ((if header then encode_row delimiter (fieldnames c) else [])
               @ concat (map (encode_row delimiter) rows)))"

subsection \<open>Files\<close>

text \<open>
  The file system maps a path to what is there: a file with its text, or something
  \<^verbatim>\<open>open\<close> refuses with an exception (a directory, a path through a directory that
  does not exist, a file the user may not write). A path that maps to nothing names a
  file that can be created. An open file object holds the text and the position of
  the next read or write; \<^verbatim>\<open>write\<close> replaces the text from the position on and
  extends the file where it runs past the end. Closing the object stores its text
  under the path.
\<close>

datatype entry = File string | Refuses error

type_synonym filesystem = "string \<rightharpoonup> entry"

record fileobj =
  content :: string
  pos :: nat

text \<open>
  \<^verbatim>\<open>open(path, 'a').close()\<close>: creates the file, empty, if it does not exist, and
  raises what \<^verbatim>\<open>open\<close> raises where the path is refused.
\<close>

definition touch :: "filesystem \<Rightarrow> string \<Rightarrow> error + filesystem" where
  "touch fs path =
     (case fs path of
        None \<Rightarrow> Inr (fs(path \<mapsto> File []))
      | Some (File text) \<Rightarrow> Inr fs
      | Some (Refuses e) \<Rightarrow> Inl e)"

text \<open>\<^verbatim>\<open>open(path, 'r+')\<close>: the file must exist; the position is its start.\<close>

definition open_rw :: "filesystem \<Rightarrow> string \<Rightarrow> error + fileobj" where
  "open_rw fs path =
     (case fs path of
        None \<Rightarrow> Inl (FileNotFoundError path)
      | Some (File text) \<Rightarrow> Inr \<lparr>content = text, pos = 0\<rparr>
      | Some (Refuses e) \<Rightarrow> Inl e)"

definition file_write :: "fileobj \<Rightarrow> string \<Rightarrow> fileobj" where
  "file_write f text =
     \<lparr>content = take (pos f) (content f) @ text @ drop (pos f + length text) (content f),
      pos = pos f + length text\<rparr>"

definition close :: "filesystem \<Rightarrow> string \<Rightarrow> fileobj \<Rightarrow> filesystem" where
  "close fs path f = fs(path \<mapsto> File (content f))"

subsection \<open>Loading the store\<close>

text \<open>
  The rows of a text. The scanner reads one character at a time; \<open>cur\<close> is the field
  being read, \<open>row\<close> the fields of the current row read so far. A field that starts
  with a double quote runs to the closing double quote, a doubled double quote inside
  standing for one. A last row with no newline after it is a row.
\<close>

datatype scan_state = StartField | InField | InQuoted | QuoteSeen

fun scan :: "char \<Rightarrow> scan_state \<Rightarrow> string \<Rightarrow> string list \<Rightarrow> string \<Rightarrow> string list list" where
  "scan d st cur row [] = (if st = StartField \<and> row = [] then [] else [row @ [cur]])"
| "scan d StartField cur row (c # cs) =
     (if c = LF then (row @ [cur]) # scan d StartField [] [] cs
      else if c = d then scan d StartField [] (row @ [cur]) cs
      else if c = DQ then scan d InQuoted cur row cs
      else scan d InField (cur @ [c]) row cs)"
| "scan d InField cur row (c # cs) =
     (if c = LF then (row @ [cur]) # scan d StartField [] [] cs
      else if c = d then scan d StartField [] (row @ [cur]) cs
      else scan d InField (cur @ [c]) row cs)"
| "scan d InQuoted cur row (c # cs) =
     (if c = DQ then scan d QuoteSeen cur row cs
      else scan d InQuoted (cur @ [c]) row cs)"
| "scan d QuoteSeen cur row (c # cs) =
     (if c = DQ then scan d InQuoted (cur @ [DQ]) row cs
      else if c = LF then (row @ [cur]) # scan d StartField [] [] cs
      else if c = d then scan d StartField [] (row @ [cur]) cs
      else scan d InField (cur @ [c]) row cs)"

definition split_rows :: "char \<Rightarrow> string \<Rightarrow> string list list" where
  "split_rows d text = scan d StartField [] [] text"

text \<open>
  The format of a persisted timestamp, as \<^verbatim>\<open>update_cmd\<close> passes it to
  \<^verbatim>\<open>datetime.strptime\<close>. The parser itself belongs to the Python library; the
  functions that call it take it as the parameter \<open>strptime\<close>, from the text and the
  format to the timestamp, \<open>None\<close> where Python raises \<^verbatim>\<open>ValueError\<close>.
\<close>

definition format :: string where
  "format = ''%Y-%m-%d %H:%M:%S''"

text \<open>
  Modelled from the spec: \<^verbatim>\<open>csv_to_dict\<close> of \<^verbatim>\<open>pyvantagepro/utils.py\<close>, which is
  not among the source files (\<^verbatim>\<open>load(stream)\<close> in 4.2 of the specification). It
  parses the header and the rows of the stream from its position to its end and fails
  with \<^verbatim>\<open>MalformedStoreError\<close> if the header is missing (the first row does not name
  the mandatory field \<^verbatim>\<open>Datetime\<close>), a row has the wrong field count, or a timestamp
  field cannot be parsed. An empty stream is an empty collection. A record is the
  dictionary of the header's names and the row's values.
\<close>

definition make_dict :: "string list \<Rightarrow> string list \<Rightarrow> dict" where
  "make_dict names vals = fold (\<lambda>(k, v) r. AList.update k v r) (zip names vals) []"

definition load_row :: "(string \<Rightarrow> string \<Rightarrow> 'dt option) \<Rightarrow> string list \<Rightarrow> string list \<Rightarrow> error + dict" where
  "load_row strptime header row =
     (if length row \<noteq> length header then Inl (MalformedStoreError ''field count'')
      else
        (case getitem (make_dict header row) ''Datetime'' of
           Inl e \<Rightarrow> Inl (MalformedStoreError ''timestamp'')
         | Inr s \<Rightarrow>
             (case strptime s format of
                None \<Rightarrow> Inl (MalformedStoreError ''timestamp'')
              | Some t \<Rightarrow> Inr (make_dict header row))))"

fun load_rows :: "(string \<Rightarrow> string \<Rightarrow> 'dt option) \<Rightarrow> string list \<Rightarrow> string list list \<Rightarrow> error + ListDict" where
  "load_rows strptime header [] = Inr []"
| "load_rows strptime header (row # rows) =
     (case load_row strptime header row of
        Inl e \<Rightarrow> Inl e
      | Inr r \<Rightarrow> (case load_rows strptime header rows of Inl e \<Rightarrow> Inl e | Inr c \<Rightarrow> Inr (r # c)))"

definition load_text :: "(string \<Rightarrow> string \<Rightarrow> 'dt option) \<Rightarrow> char \<Rightarrow> string \<Rightarrow> error + ListDict" where
  "load_text strptime delimiter text =
     (case split_rows delimiter text of
        [] \<Rightarrow> Inr []
      | header # rows \<Rightarrow>
          if ''Datetime'' \<notin> set header then Inl (MalformedStoreError ''header'')
          else load_rows strptime header rows)"

definition csv_to_dict ::
  "(string \<Rightarrow> string \<Rightarrow> 'dt option) \<Rightarrow> fileobj \<Rightarrow> char \<Rightarrow> (error + ListDict) \<times> fileobj" where
  "csv_to_dict strptime file_input delimiter =
     (load_text strptime delimiter (drop (pos file_input) (content file_input)),
      file_input\<lparr>pos := length (content file_input)\<rparr>)"

subsection \<open>\<^verbatim>\<open>update_cmd\<close>\<close>

text \<open>
  \<^verbatim>\<open>db[0]['Datetime']\<close> on the sorted collection.
\<close>

definition first_Datetime :: "ListDict \<Rightarrow> error + string" where
  "first_Datetime c = (case c of [] \<Rightarrow> Inl IndexError | r # _ \<Rightarrow> getitem r ''Datetime'')"

text \<open>
  The body of the \<^verbatim>\<open>with\<close> statement of \<^verbatim>\<open>update_cmd\<close>, on the open file
  object. The result is the exception that left the body, if any, the device and the
  file object. \<open>db0\<close> is the collection \<^verbatim>\<open>db\<close> as loaded, \<open>db1\<close> the sorted one
  the source assigns to the same variable. \<^verbatim>\<open>args.start\<close> and \<^verbatim>\<open>args.stop\<close> are
  set before \<^verbatim>\<open>getarchives\<close> reads them. \<^verbatim>\<open>to_csv\<close> is called without
  \<^verbatim>\<open>header\<close> in the branch of the empty store; the default of the parameter is
  \<^verbatim>\<open>True\<close> (\<^verbatim>\<open>include_header=true\<close> in the specification). An unparsable
  timestamp is the \<^verbatim>\<open>ValueError\<close> of \<^verbatim>\<open>strptime\<close>, here with the text it could
  not read.
\<close>

definition update_body ::
  "(string \<Rightarrow> string \<Rightarrow> 'dt option) \<Rightarrow> (nat \<Rightarrow> nat \<Rightarrow> error option) \<Rightarrow> 'dt args \<Rightarrow> 'dt device
     \<Rightarrow> fileobj \<Rightarrow> error option \<times> 'dt device \<times> fileobj" where
  "update_body strptime ProgressBar args vp file_db =
     (case csv_to_dict strptime file_db (delim args) of
        (Inl e, file_db) \<Rightarrow> (Some e, vp, file_db)
      | (Inr db0, file_db) \<Rightarrow>
          if length db0 > 0 then
            (case sorted_by db0 ''Datetime'' True of
               Inl e \<Rightarrow> (Some e, vp, file_db)
             | Inr db1 \<Rightarrow>
                 (case first_Datetime db1 of
                    Inl e \<Rightarrow> (Some e, vp, file_db)
                  | Inr s \<Rightarrow>
                      (case strptime s format of
                         None \<Rightarrow> (Some (ValueError s), vp, file_db)
                       | Some start_date \<Rightarrow>
                           (case getarchives ProgressBar
                                   (args\<lparr>start := Some start_date, stop := None\<rparr>) vp of
                              (Inl e, vp) \<Rightarrow> (Some e, vp, file_db)
                            | (Inr items, vp) \<Rightarrow>
                                (case to_csv items (delim args) False of
                                   Inl e \<Rightarrow> (Some e, vp, file_db)
                                 | Inr text \<Rightarrow> (None, vp, file_write file_db text))))))
          else
            (case getarchives ProgressBar (args\<lparr>start := None, stop := None\<rparr>) vp of
               (Inl e, vp) \<Rightarrow> (Some e, vp, file_db)
             | (Inr items, vp) \<Rightarrow>
                 (case to_csv items (delim args) True of
                    Inl e \<Rightarrow> (Some e, vp, file_db)
                  | Inr text \<Rightarrow> (None, vp, file_write file_db text))))"

text \<open>
  \<^verbatim>\<open>update_cmd\<close>: create the file if it does not exist, open it, run the body and
  close the file on every way out of the \<^verbatim>\<open>with\<close> statement. An exception of
  either \<^verbatim>\<open>open\<close> leaves the function before the body runs.
\<close>

definition update_cmd ::
  "(string \<Rightarrow> string \<Rightarrow> 'dt option) \<Rightarrow> (nat \<Rightarrow> nat \<Rightarrow> error option) \<Rightarrow> 'dt args \<Rightarrow> 'dt device
     \<Rightarrow> filesystem \<Rightarrow> error option \<times> 'dt device \<times> filesystem" where
  "update_cmd strptime ProgressBar args vp fs =
     (case touch fs (db args) of
        Inl e \<Rightarrow> (Some e, vp, fs)
      | Inr fs \<Rightarrow>
          (case open_rw fs (db args) of
             Inl e \<Rightarrow> (Some e, vp, fs)
           | Inr file_db \<Rightarrow>
               (case update_body strptime ProgressBar args vp file_db of
                  (raised, vp, file_db) \<Rightarrow> (raised, vp, close fs (db args) file_db))))"

subsection \<open>The dispatch of \<^verbatim>\<open>main\<close>\<close>

text \<open>
  The end of \<^verbatim>\<open>main\<close> for the \<^verbatim>\<open>update\<close> command (\<^verbatim>\<open>args.func\<close> is
  \<^verbatim>\<open>update_cmd\<close>). \<open>from_url\<close> is the outcome of
  \<^verbatim>\<open>VantagePro2.from_url(args.url, args.timeout)\<close>: the device, or the exception
  the connection raised. With \<^verbatim>\<open>--debug\<close> an exception leaves \<^verbatim>\<open>main\<close> as it
  is; without, it is caught and its text \<^verbatim>\<open>f'{e}'\<close> handed to
  \<^verbatim>\<open>parser.error\<close>, which prints it and exits with status 2.
\<close>

datatype exit = Returned | Raised error | ParserError string

fun str :: "error \<Rightarrow> string" where
  "str (KeyError k) = [CHR 0x27] @ k @ [CHR 0x27]"
| "str IndexError = ''list index out of range''"
| "str (ValueError m) = m"
| "str (FileNotFoundError m) = m"
| "str (FieldNotFoundError m) = m"
| "str (MalformedStoreError m) = m"
| "str (ConnectivityError m) = m"
| "str (PermissionError m) = m"

definition main_update ::
  "(string \<Rightarrow> string \<Rightarrow> 'dt option) \<Rightarrow> (nat \<Rightarrow> nat \<Rightarrow> error option) \<Rightarrow> error + 'dt device
     \<Rightarrow> 'dt args \<Rightarrow> filesystem \<Rightarrow> exit \<times> filesystem" where
  "main_update strptime ProgressBar from_url args fs =
     (if debug args then
        (case from_url of
           Inl e \<Rightarrow> (Raised e, fs)
         | Inr vp \<Rightarrow>
             (case update_cmd strptime ProgressBar args vp fs of
                (None, vp', fs') \<Rightarrow> (Returned, fs')
              | (Some e, vp', fs') \<Rightarrow> (Raised e, fs')))
      else
        (case from_url of
           Inl e \<Rightarrow> (ParserError (str e), fs)
         | Inr vp \<Rightarrow>
             (case update_cmd strptime ProgressBar args vp fs of
                (None, vp', fs') \<Rightarrow> (Returned, fs')
              | (Some e, vp', fs') \<Rightarrow> (ParserError (str e), fs'))))"

subsection \<open>A timestamp parser\<close>

text \<open>
  An instance of the parameter \<open>strptime\<close>: the parser of zero-padded timestamps
  \<^verbatim>\<open>YYYY-MM-DD HH:MM:SS\<close>, 19 characters wide, for the format above. The timestamp
  is the tuple of year, month, day, hour, minute and second.
\<close>

type_synonym datetime = "nat \<times> nat \<times> nat \<times> nat \<times> nat \<times> nat"

definition digit :: "char \<Rightarrow> nat option" where
  "digit c = map_of (zip ''0123456789'' [0 ..< 10]) c"

fun number :: "nat \<Rightarrow> string \<Rightarrow> nat option" where
  "number acc [] = Some acc"
| "number acc (c # cs) = (case digit c of None \<Rightarrow> None | Some n \<Rightarrow> number (10 * acc + n) cs)"

definition strptime_padded :: "string \<Rightarrow> string \<Rightarrow> datetime option" where
  "strptime_padded date_string fmt =
     (if fmt \<noteq> format \<or> length date_string \<noteq> 19
         \<or> map ((!) date_string) [4, 7, 10, 13, 16] \<noteq> ''-- ::''
      then None
      else
        (case map (\<lambda>(i, n). number 0 (take n (drop i date_string)))
                  [(0, 4), (5, 2), (8, 2), (11, 2), (14, 2), (17, 2)] of
           [Some y, Some m, Some d, Some H, Some M, Some S] \<Rightarrow>
             if 1 \<le> m \<and> m \<le> 12 \<and> 1 \<le> d \<and> d \<le> 31 \<and> H < 24 \<and> M < 60 \<and> S < 60
             then Some (y, m, d, H, M, S) else None
         | _ \<Rightarrow> None))"

subsection \<open>A progress bar\<close>

text \<open>
  An instance of the parameter \<open>ProgressBar\<close>: a bar that takes the values up to
  \<open>maxval\<close> and raises \<^verbatim>\<open>ValueError\<close> beyond.
\<close>

definition bounded_bar :: "nat \<Rightarrow> nat \<Rightarrow> error option" where
  "bounded_bar maxval v =
     (if v \<le> maxval then None else Some (ValueError ''Value out of range''))"

subsection \<open>The text of the store\<close>

text \<open>
  The text of the file at a path; where there is no file there is no text. \<open>refused\<close>
  is the exception \<^verbatim>\<open>open\<close> raises at a path, if any.
\<close>

definition store_text :: "filesystem \<Rightarrow> string \<Rightarrow> string" where
  "store_text fs path = (case fs path of Some (File text) \<Rightarrow> text | _ \<Rightarrow> [])"

definition refused :: "filesystem \<Rightarrow> string \<Rightarrow> error option" where
  "refused fs path = (case fs path of Some (Refuses e) \<Rightarrow> Some e | _ \<Rightarrow> None)"

subsection \<open>The scenario of the specification\<close>

text \<open>
  Section 8 of the specification: the store holds one record, of
  \<^verbatim>\<open>2024-01-01 00:00:00\<close>, and the device yields that record again and the record of
  \<^verbatim>\<open>2024-01-01 00:05:00\<close>. A second device yields three records out of order, two of
  them with the same \<^verbatim>\<open>Datetime\<close>.
\<close>

definition scenario_args :: "datetime args" where
  "scenario_args = \<lparr>debug = False, delim = CHR '','', db = ''db.csv'', start = None, stop = None\<rparr>"

definition scenario_files :: filesystem where
  "scenario_files =
     [''db.csv'' \<mapsto> File (''Datetime,Temp'' @ [LF] @ ''2024-01-01 00:00:00,20'' @ [LF])]"

definition scenario_records :: ListDict where
  "scenario_records =
     [[(''Datetime'', ''2024-01-01 00:00:00''), (''Temp'', ''20'')],
      [(''Datetime'', ''2024-01-01 00:05:00''), (''Temp'', ''21'')]]"

definition scenario_device :: "datetime device" where
  "scenario_device =
     \<lparr>archive_source = (\<lambda>start_date stop_date. map Inr scenario_records), requests = []\<rparr>"

definition unordered_records :: ListDict where
  "unordered_records =
     [[(''Datetime'', ''2024-01-01 00:05:00''), (''Temp'', ''21'')],
      [(''Datetime'', ''2024-01-01 00:00:00''), (''Temp'', ''20'')],
      [(''Datetime'', ''2024-01-01 00:05:00''), (''Temp'', ''22'')]]"

definition unordered_device :: "datetime device" where
  "unordered_device =
     \<lparr>archive_source = (\<lambda>start_date stop_date. map Inr unordered_records), requests = []\<rparr>"

text \<open>
  Further stores and devices: a store that holds the header row only, a store whose
  first row does not name \<^verbatim>\<open>Datetime\<close>, a store the user may not write, a device
  whose link fails after the first record, a device that has no record, a device
  that has no record from a lower bound on, a device whose second record has a field
  the first has not, and a device that repeats one record 2602 times, one more than
  a progress bar of \<^verbatim>\<open>maxval=2600\<close> takes.
\<close>

definition refused_files :: filesystem where
  "refused_files = [''db.csv'' \<mapsto> Refuses (PermissionError ''db.csv'')]"

definition caught_up_device :: "datetime device" where
  "caught_up_device =
     \<lparr>archive_source = (\<lambda>start_date stop_date.
        case start_date of None \<Rightarrow> map Inr scenario_records | Some t \<Rightarrow> []),
      requests = []\<rparr>"

definition ragged_device :: "datetime device" where
  "ragged_device =
     \<lparr>archive_source = (\<lambda>start_date stop_date.
        [Inr [(''Datetime'', ''2024-01-01 00:05:00''), (''Temp'', ''21'')],
         Inr [(''Datetime'', ''2024-01-01 00:10:00''), (''Wind'', ''3'')]]),
      requests = []\<rparr>"

definition long_records :: ListDict where
  "long_records = replicate 2602 [(''Datetime'', ''2024-01-01 00:00:00''), (''Temp'', ''20'')]"

definition long_device :: "datetime device" where
  "long_device =
     \<lparr>archive_source = (\<lambda>start_date stop_date. map Inr long_records), requests = []\<rparr>"

definition header_only_files :: filesystem where
  "header_only_files = [''db.csv'' \<mapsto> File (''Datetime,Temp'' @ [LF])]"

definition malformed_files :: filesystem where
  "malformed_files = [''db.csv'' \<mapsto> File (''Temp'' @ [LF] @ ''20'' @ [LF])]"

definition failing_device :: "datetime device" where
  "failing_device =
     \<lparr>archive_source = (\<lambda>start_date stop_date.
        [Inr [(''Datetime'', ''2024-01-01 00:05:00''), (''Temp'', ''21'')],
         Inl (ConnectivityError ''timeout'')]),
      requests = []\<rparr>"

definition silent_device :: "datetime device" where
  "silent_device = \<lparr>archive_source = (\<lambda>start_date stop_date. []), requests = []\<rparr>"

text \<open>A device that yields the record of \<^verbatim>\<open>2024-01-01 00:05:00\<close> only.\<close>

definition fresh_device :: "datetime device" where
  "fresh_device =
     \<lparr>archive_source = (\<lambda>start_date stop_date.
        [Inr [(''Datetime'', ''2024-01-01 00:05:00''), (''Temp'', ''21'')]]),
      requests = []\<rparr>"

section \<open>Properties\<close>

subsection \<open>Sorting\<close>

lemma find_filter: "find P xs = (case filter P xs of [] \<Rightarrow> None | x # _ \<Rightarrow> Some x)"
  by (induction xs) auto

lemma keyed_Inr_D:
  "keyed f c = Inr ks \<Longrightarrow> map snd ks = c \<and> list_all (\<lambda>p. map_of (snd p) f = Some (fst p)) ks"
  by (induction c arbitrary: ks) (auto split: option.splits sum.splits)

lemma keyed_map_snd:
  "list_all (\<lambda>p. map_of (snd p) f = Some (fst p)) S \<Longrightarrow> keyed f (map snd S) = Inr S"
  by (induction S) auto

lemma keyed_total:
  "list_all (\<lambda>r. map_of r f \<noteq> None) c \<Longrightarrow> \<exists>ks. keyed f c = Inr ks"
  by (induction c) auto

lemma keyed_has_field:
  "keyed f c = Inr ks \<Longrightarrow> list_all (\<lambda>r. map_of r f \<noteq> None) c"
  by (induction c arbitrary: ks) (auto split: option.splits sum.splits)

lemma keyed_Inl:
  "keyed f c = Inl e \<Longrightarrow> e = FieldNotFoundError f \<and> \<not> list_all (\<lambda>r. map_of r f \<noteq> None) c"
  by (induction c) (auto split: option.splits sum.splits)

lemma list_all_stable_sort:
  "list_all P (stable_sort rv ks) = list_all P ks"
  by (auto simp: stable_sort_def list_all_iff)

lemma stable_sort_stable:
  "filter (\<lambda>p. fst p = k) (stable_sort rv ks) = filter (\<lambda>p. fst p = k) ks"
proof (cases rv)
  case False
  then show ?thesis by (simp add: stable_sort_def sort_key_stable)
next
  case True
  have "filter (\<lambda>p. fst p = k) (rev (sort_key fst (rev ks)))
      = rev (filter (\<lambda>p. fst p = k) (sort_key fst (rev ks)))"
    by (simp add: rev_filter)
  also have "\<dots> = rev (filter (\<lambda>p. fst p = k) (rev ks))"
    by (simp add: sort_key_stable)
  also have "\<dots> = filter (\<lambda>p. fst p = k) ks"
    by (simp add: rev_filter)
  finally show ?thesis using True by (simp add: stable_sort_def)
qed

lemma sorted_by_Inr_keyed:
  assumes "sorted_by c f rv = Inr out"
  shows "\<exists>ks. keyed f c = Inr ks \<and> out = map snd (stable_sort rv ks)
           \<and> keyed f out = Inr (stable_sort rv ks)"
proof -
  from assms obtain ks where k: "keyed f c = Inr ks" and o: "out = map snd (stable_sort rv ks)"
    by (auto simp: sorted_by_def split: sum.splits)
  from keyed_Inr_D[OF k] have "list_all (\<lambda>p. map_of (snd p) f = Some (fst p)) (stable_sort rv ks)"
    by (simp add: list_all_stable_sort)
  then have "keyed f out = Inr (stable_sort rv ks)" unfolding o by (rule keyed_map_snd)
  with k o show ?thesis by blast
qed

lemma filter_key_map_snd:
  "list_all (\<lambda>p. map_of (snd p) f = Some (fst p)) S \<Longrightarrow>
   filter (\<lambda>r. map_of r f = Some d) (map snd S) = map snd (filter (\<lambda>p. fst p = d) S)"
  by (induction S) auto

lemma sorted_by_stable:
  assumes "sorted_by c f rv = Inr out"
  shows "filter (\<lambda>r. map_of r f = Some d) out = filter (\<lambda>r. map_of r f = Some d) c"
proof -
  from sorted_by_Inr_keyed[OF assms] obtain ks where k: "keyed f c = Inr ks"
    and o: "out = map snd (stable_sort rv ks)" by blast
  from keyed_Inr_D[OF k] have c: "map snd ks = c"
    and inv: "list_all (\<lambda>p. map_of (snd p) f = Some (fst p)) ks"
    by simp_all
  have "filter (\<lambda>r. map_of r f = Some d) out
      = map snd (filter (\<lambda>p. fst p = d) (stable_sort rv ks))"
    unfolding o using inv by (intro filter_key_map_snd) (simp add: list_all_stable_sort)
  also have "\<dots> = map snd (filter (\<lambda>p. fst p = d) ks)" by (simp add: stable_sort_stable)
  also have "\<dots> = filter (\<lambda>r. map_of r f = Some d) (map snd ks)"
    using inv by (simp add: filter_key_map_snd)
  finally show ?thesis by (simp add: c)
qed

lemma distinct_map_filter_le1:
  "(\<And>k. length (filter (\<lambda>x. f x = k) xs) \<le> 1) \<Longrightarrow> distinct (map f xs)"
proof (induction xs)
  case Nil
  then show ?case by simp
next
  case (Cons x xs)
  have le: "length (filter (\<lambda>y. f y = k) xs) \<le> 1" for k
    using Cons.prems[of k] by (simp split: if_splits)
  have "f x \<notin> f ` set xs"
  proof
    assume "f x \<in> f ` set xs"
    then have "filter (\<lambda>y. f y = f x) xs \<noteq> []" by (auto simp: filter_empty_conv)
    then have "length (filter (\<lambda>y. f y = f x) xs) \<ge> 1"
      by (cases "filter (\<lambda>y. f y = f x) xs") auto
    with Cons.prems[of "f x"] show False by simp
  qed
  with Cons.IH[OF le] show ?case by simp
qed

subsection \<open>The fetch driver\<close>

lemma spec_fetch_archive_loop:
  assumes "\<forall>n. step \<le> n \<and> n < step + length gen \<longrightarrow> pbar n = None"
  shows "spec_fetch gen A (set D)
     = (case archive_loop pbar step gen A D of Inl e \<Rightarrow> Inl e | Inr (a, d) \<Rightarrow> Inr a)"
  using assms
proof (induction gen arbitrary: step A D)
  case Nil
  then show ?case by simp
next
  case (Cons x gen)
  show ?case
  proof (cases x)
    case (Inl e)
    then show ?thesis by simp
  next
    case (Inr r)
    from Cons.prems have p: "pbar step = None" by simp
    from Cons.prems have rest: "\<forall>n. Suc step \<le> n \<and> n < Suc step + length gen \<longrightarrow> pbar n = None"
      by simp
    show ?thesis
    proof (cases "map_of r ''Datetime''")
      case None
      with Inr p show ?thesis by (simp add: getitem_def)
    next
      case (Some d)
      show ?thesis
      proof (cases "d \<in> set D")
        case True
        with Inr p Some Cons.IH[OF rest, of A D] show ?thesis by (simp add: getitem_def)
      next
        case False
        with Inr p Some Cons.IH[OF rest, of "A @ [r]" "D @ [d]"] show ?thesis
          by (simp add: getitem_def)
      qed
    qed
  qed
qed

lemma getarchives_debug_irrelevant:
  assumes "\<forall>n < length (archive_source vp (start args) (stop args)). bar 2600 n = None"
  shows "getarchives bar args vp = getarchives bar (args\<lparr>debug := False\<rparr>) vp"
proof (cases "debug args")
  case False
  then have "args\<lparr>debug := False\<rparr> = args" by simp
  then show ?thesis by simp
next
  case True
  have "spec_fetch (archive_source vp (start args) (stop args)) [] (set [])
      = (case archive_loop (bar 2600) 0 (archive_source vp (start args) (stop args)) [] [] of
           Inl e \<Rightarrow> Inl e | Inr (a, d) \<Rightarrow> Inr a)"
    using assms by (intro spec_fetch_archive_loop) simp
  with True show ?thesis
    by (auto simp: getarchives_def get_archives_def get_archives_generator_def
             split: prod.splits sum.splits)
qed

lemma archive_loop_first_seen:
  assumes "list_all (\<lambda>r. map_of r ''Datetime'' \<noteq> None) rs"
    and "\<forall>n. step \<le> n \<and> n < step + length rs \<longrightarrow> pbar n = None"
  shows "\<exists>out D'. archive_loop pbar step (map Inr rs) A D = Inr (A @ out, D')
           \<and> set out \<subseteq> set rs \<and>
           (\<forall>d. filter (\<lambda>r. map_of r ''Datetime'' = Some d) out =
                (if d \<in> set D then []
                 else take 1 (filter (\<lambda>r. map_of r ''Datetime'' = Some d) rs)))"
  using assms
proof (induction rs arbitrary: step A D)
  case Nil
  then show ?case by simp
next
  case (Cons r rs)
  then obtain d0 where d0: "map_of r ''Datetime'' = Some d0" by auto
  from Cons.prems have rs: "list_all (\<lambda>r. map_of r ''Datetime'' \<noteq> None) rs" by simp
  from Cons.prems have p: "pbar step = None" by simp
  from Cons.prems have rest: "\<forall>n. Suc step \<le> n \<and> n < Suc step + length rs \<longrightarrow> pbar n = None"
    by simp
  show ?case
  proof (cases "d0 \<in> set D")
    case True
    from Cons.IH[OF rs rest, of A D] obtain out D' where
      l: "archive_loop pbar (Suc step) (map Inr rs) A D = Inr (A @ out, D')"
      and s: "set out \<subseteq> set rs" and
      f: "\<And>d. filter (\<lambda>r. map_of r ''Datetime'' = Some d) out =
                (if d \<in> set D then []
                 else take 1 (filter (\<lambda>r. map_of r ''Datetime'' = Some d) rs))"
      by blast
    have "archive_loop pbar step (map Inr (r # rs)) A D = Inr (A @ out, D')"
      using True d0 l p by (simp add: getitem_def)
    moreover have "filter (\<lambda>r. map_of r ''Datetime'' = Some d) out =
                (if d \<in> set D then []
                 else take 1 (filter (\<lambda>r. map_of r ''Datetime'' = Some d) (r # rs)))" for d
      using f[of d] True d0 by auto
    moreover have "set out \<subseteq> set (r # rs)" using s by auto
    ultimately show ?thesis by blast
  next
    case False
    from Cons.IH[OF rs rest, of "A @ [r]" "D @ [d0]"] obtain out D' where
      l: "archive_loop pbar (Suc step) (map Inr rs) (A @ [r]) (D @ [d0])
            = Inr ((A @ [r]) @ out, D')" and
      s: "set out \<subseteq> set rs" and
      f: "\<And>d. filter (\<lambda>r. map_of r ''Datetime'' = Some d) out =
                (if d \<in> set (D @ [d0]) then []
                 else take 1 (filter (\<lambda>r. map_of r ''Datetime'' = Some d) rs))"
      by blast
    have "archive_loop pbar step (map Inr (r # rs)) A D = Inr (A @ (r # out), D')"
      using False d0 l p by (simp add: getitem_def)
    moreover have "filter (\<lambda>r. map_of r ''Datetime'' = Some d) (r # out) =
                (if d \<in> set D then []
                 else take 1 (filter (\<lambda>r. map_of r ''Datetime'' = Some d) (r # rs)))" for d
      using f[of d] False d0 by auto
    moreover have "set (r # out) \<subseteq> set (r # rs)" using s by auto
    ultimately show ?thesis by blast
  qed
qed

lemma getarchives_fetch:
  assumes src: "archive_source vp (start args) (stop args) = map Inr rs"
    and dt: "list_all (\<lambda>r. map_of r ''Datetime'' \<noteq> None) rs"
    and pb: "\<forall>n < length rs. bar 2600 n = None"
  shows "\<exists>out ks. fst (getarchives bar args vp) = Inr out
           \<and> keyed ''Datetime'' out = Inr ks
           \<and> distinct (map fst ks) \<and> sorted (map fst ks)
           \<and> (\<forall>d. find (\<lambda>r. map_of r ''Datetime'' = Some d) out
                   = find (\<lambda>r. map_of r ''Datetime'' = Some d) rs)
           \<and> (rs = [] \<longrightarrow> out = [])"
proof -
  from pb have pb0: "\<forall>n. 0 \<le> n \<and> n < 0 + length rs \<longrightarrow> bar 2600 n = None" by simp
  from pb src have pbs: "\<forall>n < length (archive_source vp (start args) (stop args)). bar 2600 n = None"
    by simp
  from archive_loop_first_seen[OF dt pb0, of "[]" "[]"] obtain archives dates where
    l: "archive_loop (bar 2600) 0 (map Inr rs) [] [] = Inr (archives, dates)" and
    sub: "set archives \<subseteq> set rs" and
    f: "\<And>d. filter (\<lambda>r. map_of r ''Datetime'' = Some d) archives
             = take 1 (filter (\<lambda>r. map_of r ''Datetime'' = Some d) rs)"
    by auto
  from dt sub have "list_all (\<lambda>r. map_of r ''Datetime'' \<noteq> None) archives"
    by (auto simp: list_all_iff)
  from keyed_total[OF this] obtain ks0 where ks0: "keyed ''Datetime'' archives = Inr ks0" ..
  define out where "out = map snd (stable_sort False ks0)"
  have sb: "sorted_by archives ''Datetime'' False = Inr out"
    by (simp add: sorted_by_def ks0 out_def)
  have g: "fst (getarchives bar args vp) = Inr out"
    unfolding getarchives_debug_irrelevant[of vp args bar, OF pbs]
    by (simp add: getarchives_def get_archives_generator_def src l sb)
  from sorted_by_Inr_keyed[OF sb] ks0
  have k: "keyed ''Datetime'' out = Inr (stable_sort False ks0)" by auto
  from keyed_Inr_D[OF ks0] have m: "map snd ks0 = archives"
    and inv: "list_all (\<lambda>p. map_of (snd p) ''Datetime'' = Some (fst p)) ks0" by simp_all
  have "length (filter (\<lambda>p. fst p = d) (stable_sort False ks0)) \<le> 1" for d
  proof -
    have "length (filter (\<lambda>p. fst p = d) (stable_sort False ks0))
        = length (map snd (filter (\<lambda>p. fst p = d) ks0))"
      by (simp add: stable_sort_stable)
    also have "\<dots> = length (filter (\<lambda>r. map_of r ''Datetime'' = Some d) archives)"
      using filter_key_map_snd[OF inv, of d] m by simp
    also have "\<dots> \<le> 1" by (simp add: f)
    finally show ?thesis .
  qed
  then have d: "distinct (map fst (stable_sort False ks0))" by (rule distinct_map_filter_le1)
  have s: "sorted (map fst (stable_sort False ks0))" by (simp add: stable_sort_def)
  have fi: "find (\<lambda>r. map_of r ''Datetime'' = Some d) out
          = find (\<lambda>r. map_of r ''Datetime'' = Some d) rs" for d
  proof -
    have "filter (\<lambda>r. map_of r ''Datetime'' = Some d) out
        = take 1 (filter (\<lambda>r. map_of r ''Datetime'' = Some d) rs)"
      using sorted_by_stable[OF sb, of d] f[of d] by simp
    then show ?thesis
      by (cases "filter (\<lambda>r. map_of r ''Datetime'' = Some d) rs") (simp_all add: find_filter)
  qed
  have e: "rs = [] \<longrightarrow> out = []"
    using l ks0 by (auto simp: out_def stable_sort_def)
  from g k d s fi e show ?thesis by blast
qed

lemma getarchives_debug_bar:
  "debug args \<Longrightarrow> getarchives bar args vp = getarchives bar' args vp"
  by (simp add: getarchives_def)

lemma archive_loop_bar_raises:
  "list_all (\<lambda>r. map_of r ''Datetime'' \<noteq> None) rs \<Longrightarrow>
   \<forall>n. step \<le> n \<and> n < step + length rs \<longrightarrow> pbar n = None \<Longrightarrow>
   pbar (step + length rs) = Some e \<Longrightarrow>
   archive_loop pbar step (map Inr rs @ Inr r # gen) A D = Inl e"
proof (induction rs arbitrary: step A D)
  case Nil
  then show ?case by simp
next
  case (Cons r' rs)
  from Cons.prems have p: "pbar step = None" by simp
  from Cons.prems have rest: "\<forall>n. Suc step \<le> n \<and> n < Suc step + length rs \<longrightarrow> pbar n = None"
    by simp
  from Cons.prems have rs: "list_all (\<lambda>r. map_of r ''Datetime'' \<noteq> None) rs" by simp
  from Cons.prems have e: "pbar (Suc step + length rs) = Some e" by simp
  from Cons.prems obtain d where "map_of r' ''Datetime'' = Some d" by auto
  with p Cons.IH[OF rs rest e] show ?case by (simp add: getitem_def)
qed

lemma getarchives_bar_raises:
  assumes "archive_source vp (start args) (stop args) = map Inr rs @ Inr r # gen"
    and "list_all (\<lambda>r. map_of r ''Datetime'' \<noteq> None) rs"
    and "\<forall>n < length rs. bar 2600 n = None" and "bar 2600 (length rs) = Some e"
    and "\<not> debug args"
  shows "fst (getarchives bar args vp) = Inl e"
proof -
  from assms(3) have "\<forall>n. 0 \<le> n \<and> n < 0 + length rs \<longrightarrow> bar 2600 n = None" by simp
  from archive_loop_bar_raises[OF assms(2) this] assms(1,4,5) show ?thesis
    by (simp add: getarchives_def get_archives_generator_def)
qed

lemma getarchives_bar_raises_at:
  assumes src: "archive_source vp (start args) (stop args) = map Inr rs"
    and dt: "list_all (\<lambda>r. map_of r ''Datetime'' \<noteq> None) rs"
    and k: "k < length rs" and acc: "\<forall>n < k. bar 2600 n = None" and rej: "bar 2600 k = Some e"
    and nd: "\<not> debug args"
  shows "fst (getarchives bar args vp) = Inl e"
proof -
  from k have "rs = take k rs @ rs ! k # drop (Suc k) rs" by (rule id_take_nth_drop)
  then have "map Inr rs = map Inr (take k rs) @ Inr (rs ! k) # map Inr (drop (Suc k) rs)"
    by (metis list.simps(9) map_append)
  with src have s: "archive_source vp (start args) (stop args)
      = map Inr (take k rs) @ Inr (rs ! k) # map Inr (drop (Suc k) rs)"
    by simp
  from dt have t: "list_all (\<lambda>r. map_of r ''Datetime'' \<noteq> None) (take k rs)"
    by (auto simp: list_all_iff dest: in_set_takeD)
  from k have l: "length (take k rs) = k" by simp
  from acc l have a: "\<forall>n < length (take k rs). bar 2600 n = None" by simp
  from rej l have r: "bar 2600 (length (take k rs)) = Some e" by simp
  from s t a r nd show ?thesis by (rule getarchives_bar_raises)
qed

lemma spec_fetch_repeat:
  "map_of r ''Datetime'' = Some d \<Longrightarrow> spec_fetch (map Inr (replicate n r)) [r] {d} = Inr [r]"
  by (induction n) simp_all

lemma long_records_eq:
  "long_records = replicate 2601 [(''Datetime'', ''2024-01-01 00:00:00''), (''Temp'', ''20'')]
                  @ [[(''Datetime'', ''2024-01-01 00:00:00''), (''Temp'', ''20'')]]"
proof -
  have "(2602::nat) = Suc 2601" by simp
  then show ?thesis
    unfolding long_records_def by (simp only: replicate_append_same replicate_Suc)
qed

lemma long_device_raises:
  "fst (getarchives bounded_bar (scenario_args\<lparr>debug := False\<rparr>) long_device)
     = Inl (ValueError ''Value out of range'')"
proof -
  let ?r = "[(''Datetime'', ''2024-01-01 00:00:00''), (''Temp'', ''20'')]"
  let ?args = "scenario_args\<lparr>debug := False\<rparr>"
  have "archive_source long_device (start ?args) (stop ?args)
          = map Inr (replicate 2601 ?r) @ Inr ?r # []"
    by (simp add: long_device_def long_records_eq)
  moreover have "list_all (\<lambda>r. map_of r ''Datetime'' \<noteq> None) (replicate 2601 ?r)"
    by (simp add: list_all_iff)
  moreover have "\<forall>n < length (replicate 2601 ?r). bounded_bar 2600 n = None"
    by (simp add: bounded_bar_def)
  moreover have "bounded_bar 2600 (length (replicate 2601 ?r))
                   = Some (ValueError ''Value out of range'')"
    by (simp add: bounded_bar_def)
  moreover have "\<not> debug ?args" by simp
  ultimately show ?thesis by (rule getarchives_bar_raises)
qed

lemma long_device_debug_returns:
  "fst (getarchives bounded_bar (scenario_args\<lparr>debug := True\<rparr>) long_device)
     = Inr [[(''Datetime'', ''2024-01-01 00:00:00''), (''Temp'', ''20'')]]"
proof -
  let ?r = "[(''Datetime'', ''2024-01-01 00:00:00''), (''Temp'', ''20'')]"
  have "(2602::nat) = Suc 2601" by simp
  then have l: "long_records = ?r # replicate 2601 ?r"
    unfolding long_records_def by (simp only: replicate_Suc)
  have d: "map_of ?r ''Datetime'' = Some ''2024-01-01 00:00:00''" by simp
  have "spec_fetch (map Inr long_records) [] {} = Inr [?r]"
    unfolding l using spec_fetch_repeat[OF d, of 2601] by simp
  moreover have "sorted_by [?r] ''Datetime'' False = Inr [?r]" by code_simp
  ultimately show ?thesis
    by (simp add: getarchives_def get_archives_def get_archives_generator_def long_device_def)
qed

text \<open>
  Claim C2, as the code has it. Let the device yield the finite sequence \<open>rs\<close> of
  records, each with its \<^verbatim>\<open>Datetime\<close>. With \<^verbatim>\<open>debug\<close> set, or when the progress
  bar takes the index of every record, \<^verbatim>\<open>getarchives\<close> returns a collection
  \<open>out\<close>, not an error. The \<^verbatim>\<open>Datetime\<close> values of \<open>out\<close> (the keys \<open>ks\<close>) are
  pairwise distinct and ascending, whatever the order of \<open>rs\<close>. For every value
  \<open>d\<close>, the first record of \<open>out\<close> with \<^verbatim>\<open>Datetime\<close> \<open>d\<close>, the only one, is the
  first record of \<open>rs\<close> with \<^verbatim>\<open>Datetime\<close> \<open>d\<close>: the first seen is kept, later ones
  are discarded, and no value is lost. An empty sequence gives the empty collection.
  Without \<^verbatim>\<open>debug\<close>, when the bar made with \<^verbatim>\<open>maxval=2600\<close> rejects the index
  \<open>k\<close> of a record, having taken those before, \<^verbatim>\<open>getarchives\<close> ends with the
  exception of the bar and returns nothing.
\<close>

theorem getarchives_first_seen_sorted:
  assumes "archive_source vp (start args) (stop args) = map Inr rs"
    and "list_all (\<lambda>r. map_of r ''Datetime'' \<noteq> None) rs"
  shows "(debug args \<or> (\<forall>n < length rs. bar 2600 n = None) \<longrightarrow>
           (\<exists>out ks. fst (getarchives bar args vp) = Inr out
              \<and> keyed ''Datetime'' out = Inr ks
              \<and> distinct (map fst ks) \<and> sorted (map fst ks)
              \<and> (\<forall>d. find (\<lambda>r. map_of r ''Datetime'' = Some d) out
                      = find (\<lambda>r. map_of r ''Datetime'' = Some d) rs)
              \<and> (rs = [] \<longrightarrow> out = [])))
       \<and> (\<not> debug args \<longrightarrow>
            (\<forall>k e. k < length rs \<and> (\<forall>n < k. bar 2600 n = None) \<and> bar 2600 k = Some e \<longrightarrow>
               fst (getarchives bar args vp) = Inl e))"
proof (intro conjI impI allI)
  assume a: "debug args \<or> (\<forall>n < length rs. bar 2600 n = None)"
  show "\<exists>out ks. fst (getarchives bar args vp) = Inr out
              \<and> keyed ''Datetime'' out = Inr ks
              \<and> distinct (map fst ks) \<and> sorted (map fst ks)
              \<and> (\<forall>d. find (\<lambda>r. map_of r ''Datetime'' = Some d) out
                      = find (\<lambda>r. map_of r ''Datetime'' = Some d) rs)
              \<and> (rs = [] \<longrightarrow> out = [])"
  proof (cases "debug args")
    case True
    have nb: "\<forall>n < length rs. (\<lambda>maxval v. None :: error option) 2600 n = None" by simp
    have eq: "getarchives bar args vp = getarchives (\<lambda>maxval v. None) args vp"
      using True by (rule getarchives_debug_bar)
    from getarchives_fetch[of vp args rs "\<lambda>maxval v. None", OF assms nb]
    show ?thesis unfolding eq .
  next
    case False
    with a have "\<forall>n < length rs. bar 2600 n = None" by simp
    from getarchives_fetch[of vp args rs bar, OF assms this] show ?thesis .
  qed
next
  fix k e
  assume "\<not> debug args"
    and "k < length rs \<and> (\<forall>n < k. bar 2600 n = None) \<and> bar 2600 k = Some e"
  with assms show "fst (getarchives bar args vp) = Inl e"
    using getarchives_bar_raises_at[of vp args rs k bar e] by blast
qed

theorem getarchives_first_seen_sorted_witness:
  "archive_source unordered_device (start scenario_args) (stop scenario_args)
     = map Inr unordered_records
   \<and> list_all (\<lambda>r. map_of r ''Datetime'' \<noteq> None) unordered_records
   \<and> list_all (\<lambda>n. bounded_bar 2600 n = None) [0 ..< length unordered_records]
   \<and> (\<exists>out ks. fst (getarchives bounded_bar scenario_args unordered_device) = Inr out
           \<and> keyed ''Datetime'' out = Inr ks
           \<and> distinct (map fst ks) \<and> sorted (map fst ks)
           \<and> (\<forall>d. find (\<lambda>r. map_of r ''Datetime'' = Some d) out
                   = find (\<lambda>r. map_of r ''Datetime'' = Some d) unordered_records)
           \<and> (unordered_records = [] \<longrightarrow> out = []))
   \<and> archive_source long_device (start scenario_args) (stop scenario_args) = map Inr long_records
   \<and> list_all (\<lambda>r. map_of r ''Datetime'' \<noteq> None) long_records
   \<and> \<not> debug scenario_args
   \<and> 2601 < length long_records
   \<and> list_all (\<lambda>n. bounded_bar 2600 n = None) [0 ..< 2601]
   \<and> bounded_bar 2600 2601 = Some (ValueError ''Value out of range'')
   \<and> fst (getarchives bounded_bar scenario_args long_device)
       = Inl (ValueError ''Value out of range'')"
proof -
  have h1: "archive_source unordered_device (start scenario_args) (stop scenario_args)
              = map Inr unordered_records"
    by (simp add: unordered_device_def)
  have h2: "list_all (\<lambda>r. map_of r ''Datetime'' \<noteq> None) unordered_records"
    by (simp add: unordered_records_def)
  have h3: "\<forall>n < length unordered_records. bounded_bar 2600 n = None"
    by (simp add: unordered_records_def bounded_bar_def)
  then have h3': "list_all (\<lambda>n. bounded_bar 2600 n = None) [0 ..< length unordered_records]"
    by (simp add: list_all_iff)
  have l1: "archive_source long_device (start scenario_args) (stop scenario_args)
              = map Inr long_records"
    by (simp add: long_device_def)
  have l2: "list_all (\<lambda>r. map_of r ''Datetime'' \<noteq> None) long_records"
    by (simp add: long_records_def list_all_iff)
  have l3: "\<not> debug scenario_args" by (simp add: scenario_args_def)
  have l4: "2601 < length long_records" by (simp add: long_records_def)
  have l5: "\<forall>n < 2601. bounded_bar 2600 n = None" by (simp add: bounded_bar_def)
  then have l5': "list_all (\<lambda>n. bounded_bar 2600 n = None) [0 ..< 2601]"
    by (simp add: list_all_iff)
  have l6: "bounded_bar 2600 2601 = Some (ValueError ''Value out of range'')"
    by (simp add: bounded_bar_def)
  from getarchives_first_seen_sorted[of unordered_device scenario_args unordered_records
         bounded_bar, OF h1 h2] h3
  have a: "\<exists>out ks. fst (getarchives bounded_bar scenario_args unordered_device) = Inr out
           \<and> keyed ''Datetime'' out = Inr ks
           \<and> distinct (map fst ks) \<and> sorted (map fst ks)
           \<and> (\<forall>d. find (\<lambda>r. map_of r ''Datetime'' = Some d) out
                   = find (\<lambda>r. map_of r ''Datetime'' = Some d) unordered_records)
           \<and> (unordered_records = [] \<longrightarrow> out = [])"
    by blast
  from getarchives_first_seen_sorted[of long_device scenario_args long_records bounded_bar,
         OF l1 l2] l3 l4 l5 l6
  have b: "fst (getarchives bounded_bar scenario_args long_device)
             = Inl (ValueError ''Value out of range'')"
    by blast
  from h1 h2 h3' a l1 l2 l3 l4 l5' l6 b show ?thesis by blast
qed

theorem getarchives_long_sequence_raises:
  "length long_records = 2602
   \<and> archive_source long_device None None = map Inr long_records
   \<and> fst (getarchives bounded_bar (scenario_args\<lparr>debug := False\<rparr>) long_device)
       = Inl (ValueError ''Value out of range'')"
  using long_device_raises by (simp add: long_records_def long_device_def)

text \<open>
  Claim C9, as the code has it. For every window and every sequence the device
  yields, when the progress bar takes the index of every item of the sequence,
  \<^verbatim>\<open>getarchives\<close> returns the same collection, or ends with the same exception, and
  leaves the device in the same state, with \<^verbatim>\<open>debug\<close> set (the result of
  \<^verbatim>\<open>vp.get_archives\<close>, no progress bar) and without (the loop that updates the
  progress bar). When the bar made with \<^verbatim>\<open>maxval=2600\<close> rejects the index of a
  record, having taken those before, the loop ends with the exception of the bar.
  The path with \<^verbatim>\<open>debug\<close> set does not depend on the bar.
\<close>

theorem getarchives_progress_irrelevant:
  "((\<forall>n < length (archive_source vp (start args) (stop args)). bar 2600 n = None) \<longrightarrow>
      getarchives bar (args\<lparr>debug := True\<rparr>) vp = getarchives bar (args\<lparr>debug := False\<rparr>) vp)
   \<and> (\<forall>rs r gen e. archive_source vp (start args) (stop args) = map Inr rs @ Inr r # gen
          \<and> list_all (\<lambda>r. map_of r ''Datetime'' \<noteq> None) rs
          \<and> (\<forall>n < length rs. bar 2600 n = None) \<and> bar 2600 (length rs) = Some e \<longrightarrow>
        fst (getarchives bar (args\<lparr>debug := False\<rparr>) vp) = Inl e)
   \<and> getarchives bar (args\<lparr>debug := True\<rparr>) vp = getarchives bar' (args\<lparr>debug := True\<rparr>) vp"
proof (intro conjI impI allI; (elim conjE)?)
  assume "\<forall>n < length (archive_source vp (start args) (stop args)). bar 2600 n = None"
  then show "getarchives bar (args\<lparr>debug := True\<rparr>) vp = getarchives bar (args\<lparr>debug := False\<rparr>) vp"
    using getarchives_debug_irrelevant[of vp "args\<lparr>debug := True\<rparr>" bar] by simp
next
  fix rs r gen e
  assume "archive_source vp (start args) (stop args) = map Inr rs @ Inr r # gen"
    and "list_all (\<lambda>r. map_of r ''Datetime'' \<noteq> None) rs"
    and "\<forall>n < length rs. bar 2600 n = None" and "bar 2600 (length rs) = Some e"
  then show "fst (getarchives bar (args\<lparr>debug := False\<rparr>) vp) = Inl e"
    using getarchives_bar_raises[of vp "args\<lparr>debug := False\<rparr>" rs r gen bar e] by simp
next
  show "getarchives bar (args\<lparr>debug := True\<rparr>) vp = getarchives bar' (args\<lparr>debug := True\<rparr>) vp"
    by (rule getarchives_debug_bar) simp
qed

theorem getarchives_progress_irrelevant_witness:
  "list_all (\<lambda>n. bounded_bar 2600 n = None)
     [0 ..< length (archive_source unordered_device (start scenario_args) (stop scenario_args))]
   \<and> getarchives bounded_bar (scenario_args\<lparr>debug := True\<rparr>) unordered_device
     = getarchives bounded_bar (scenario_args\<lparr>debug := False\<rparr>) unordered_device
   \<and> fst (getarchives bounded_bar (scenario_args\<lparr>debug := True\<rparr>) unordered_device)
     = Inr [[(''Datetime'', ''2024-01-01 00:00:00''), (''Temp'', ''20'')],
            [(''Datetime'', ''2024-01-01 00:05:00''), (''Temp'', ''21'')]]
   \<and> archive_source long_device (start scenario_args) (stop scenario_args)
       = map Inr (replicate 2601 [(''Datetime'', ''2024-01-01 00:00:00''), (''Temp'', ''20'')])
         @ Inr [(''Datetime'', ''2024-01-01 00:00:00''), (''Temp'', ''20'')] # []
   \<and> list_all (\<lambda>n. bounded_bar 2600 n = None) [0 ..< 2601]
   \<and> bounded_bar 2600 2601 = Some (ValueError ''Value out of range'')
   \<and> fst (getarchives bounded_bar (scenario_args\<lparr>debug := False\<rparr>) long_device)
       = Inl (ValueError ''Value out of range'')"
proof -
  let ?r = "[(''Datetime'', ''2024-01-01 00:00:00''), (''Temp'', ''20'')]"
  have l1: "archive_source long_device (start scenario_args) (stop scenario_args)
              = map Inr (replicate 2601 ?r) @ Inr ?r # []"
    by (simp add: long_device_def long_records_eq)
  have l2: "list_all (\<lambda>r. map_of r ''Datetime'' \<noteq> None) (replicate 2601 ?r)"
    by (simp add: list_all_iff)
  have l3: "\<forall>n < length (replicate 2601 ?r). bounded_bar 2600 n = None"
    by (simp add: bounded_bar_def)
  then have l3': "list_all (\<lambda>n. bounded_bar 2600 n = None) [0 ..< 2601]"
    by (simp add: list_all_iff)
  have l4: "bounded_bar 2600 (length (replicate 2601 ?r)) = Some (ValueError ''Value out of range'')"
    by (simp add: bounded_bar_def)
  then have l4': "bounded_bar 2600 2601 = Some (ValueError ''Value out of range'')" by simp
  from getarchives_progress_irrelevant[of long_device scenario_args bounded_bar] l1 l2 l3 l4
  have l5: "fst (getarchives bounded_bar (scenario_args\<lparr>debug := False\<rparr>) long_device)
       = Inl (ValueError ''Value out of range'')"
    by blast
  have "fst (getarchives bounded_bar (scenario_args\<lparr>debug := False\<rparr>) unordered_device)
     = Inr [[(''Datetime'', ''2024-01-01 00:00:00''), (''Temp'', ''20'')],
            [(''Datetime'', ''2024-01-01 00:05:00''), (''Temp'', ''21'')]]"
    by code_simp
  moreover note l1 l3' l4' l5
  moreover have h: "\<forall>n < length (archive_source unordered_device (start scenario_args)
                              (stop scenario_args)). bounded_bar 2600 n = None"
    by (simp add: unordered_device_def unordered_records_def bounded_bar_def)
  moreover from h have "list_all (\<lambda>n. bounded_bar 2600 n = None)
     [0 ..< length (archive_source unordered_device (start scenario_args) (stop scenario_args))]"
    by (simp add: list_all_iff)
  ultimately show ?thesis
    using getarchives_progress_irrelevant[of unordered_device scenario_args bounded_bar]
    by simp
qed

theorem getarchives_debug_differs_on_long_sequence:
  "fst (getarchives bounded_bar (scenario_args\<lparr>debug := True\<rparr>) long_device)
     = Inr [[(''Datetime'', ''2024-01-01 00:00:00''), (''Temp'', ''20'')]]
   \<and> fst (getarchives bounded_bar (scenario_args\<lparr>debug := False\<rparr>) long_device)
     = Inl (ValueError ''Value out of range'')"
  using long_device_debug_returns long_device_raises by simp

subsection \<open>The update\<close>

lemma update_cmd_eq:
  "refused fs (db args) = None \<Longrightarrow>
   update_cmd strptime bar args vp fs =
     (case update_body strptime bar args vp \<lparr>content = store_text fs (db args), pos = 0\<rparr> of
        (raised, vp', f) \<Rightarrow> (raised, vp', fs(db args \<mapsto> File (content f))))"
  by (auto simp: update_cmd_def touch_def open_rw_def close_def store_text_def refused_def
           split: option.splits prod.splits entry.splits)

lemma update_cmd_refused:
  "refused fs (db args) = Some e \<Longrightarrow> update_cmd strptime bar args vp fs = (Some e, vp, fs)"
  by (auto simp: update_cmd_def touch_def refused_def split: option.splits entry.splits)

lemma store_text_upd:
  "store_text (fs(path \<mapsto> File text)) path = text"
  by (simp add: store_text_def)

lemma file_write_at_end:
  "content (file_write (f\<lparr>pos := length (content f)\<rparr>) text) = content f @ text"
  by (simp add: file_write_def)

lemma update_body_appends:
  assumes "update_body strptime bar args vp f = (raised, vp', f')"
  shows "\<exists>suffix. content f' = content f @ suffix \<and> (raised \<noteq> None \<longrightarrow> suffix = [])"
  using assms
  by (auto simp: update_body_def csv_to_dict_def file_write_at_end
           split: sum.splits prod.splits if_splits option.splits)

lemma getarchives_requests:
  "snd (getarchives bar args vp) = vp\<lparr>requests := requests vp @ [(start args, stop args)]\<rparr>"
  by (auto simp: getarchives_def get_archives_def get_archives_generator_def
           split: sum.splits prod.splits)

lemma getarchives_has_Datetime:
  assumes "fst (getarchives bar args vp) = Inr items"
  shows "list_all (\<lambda>r. map_of r ''Datetime'' \<noteq> None) items"
proof -
  from assms obtain c where "sorted_by c ''Datetime'' False = Inr items"
    by (auto simp: getarchives_def get_archives_def get_archives_generator_def
             split: if_splits sum.splits prod.splits)
  from sorted_by_Inr_keyed[OF this] obtain ks where "keyed ''Datetime'' items = Inr ks"
    by blast
  then show ?thesis by (rule keyed_has_field)
qed

lemma update_body_empty:
  assumes "load_text strptime (delim args) (drop (pos f) (content f)) = Inr []"
  shows "update_body strptime bar args vp f =
     (case getarchives bar (args\<lparr>start := None, stop := None\<rparr>) vp of
        (Inl e, vp') \<Rightarrow> (Some e, vp', f\<lparr>pos := length (content f)\<rparr>)
      | (Inr items, vp') \<Rightarrow>
          (case to_csv items (delim args) True of
             Inl e \<Rightarrow> (Some e, vp', f\<lparr>pos := length (content f)\<rparr>)
           | Inr text \<Rightarrow> (None, vp', file_write (f\<lparr>pos := length (content f)\<rparr>) text)))"
  using assms by (simp add: update_body_def csv_to_dict_def)

lemma update_body_nonempty:
  assumes "load_text strptime (delim args) (drop (pos f) (content f)) = Inr db0" and "db0 \<noteq> []"
    and "sorted_by db0 ''Datetime'' True = Inr db1" and "first_Datetime db1 = Inr s"
    and "strptime s format = Some t"
  shows "update_body strptime bar args vp f =
     (case getarchives bar (args\<lparr>start := Some t, stop := None\<rparr>) vp of
        (Inl e, vp') \<Rightarrow> (Some e, vp', f\<lparr>pos := length (content f)\<rparr>)
      | (Inr items, vp') \<Rightarrow>
          (case to_csv items (delim args) False of
             Inl e \<Rightarrow> (Some e, vp', f\<lparr>pos := length (content f)\<rparr>)
           | Inr text \<Rightarrow> (None, vp', file_write (f\<lparr>pos := length (content f)\<rparr>) text)))"
  using assms by (simp add: update_body_def csv_to_dict_def)

text \<open>
  The run of \<^verbatim>\<open>update_cmd\<close> on a store that opens and loads, in terms of the
  window \<open>(lower, None)\<close> of the pass: \<open>lower\<close> is \<open>None\<close> for an empty collection
  and the timestamp of the first record of the descending sort otherwise.
\<close>

lemma update_cmd_window:
  assumes opened: "refused fs (db args) = None"
    and load: "load_text strptime (delim args) (store_text fs (db args)) = Inr db0"
    and first: "db0 = [] \<longrightarrow> lower = None"
    and resume: "db0 \<noteq> [] \<longrightarrow>
       (\<exists>db1 s t. sorted_by db0 ''Datetime'' True = Inr db1 \<and> first_Datetime db1 = Inr s
          \<and> strptime s format = Some t \<and> lower = Some t)"
  shows "update_cmd strptime bar args vp fs =
     (case getarchives bar (args\<lparr>start := lower, stop := None\<rparr>) vp of
        (Inl e, vp') \<Rightarrow> (Some e, vp', fs(db args \<mapsto> File (store_text fs (db args))))
      | (Inr items, vp') \<Rightarrow>
          (case to_csv items (delim args) (db0 = []) of
             Inl e \<Rightarrow> (Some e, vp', fs(db args \<mapsto> File (store_text fs (db args))))
           | Inr text \<Rightarrow> (None, vp', fs(db args \<mapsto> File (store_text fs (db args) @ text)))))"
proof (cases "db0 = []")
  case True
  with first have l: "lower = None" by simp
  from load True
  have "load_text strptime (delim args)
          (drop (pos \<lparr>content = store_text fs (db args), pos = 0\<rparr>)
                (content \<lparr>content = store_text fs (db args), pos = 0\<rparr>)) = Inr []"
    by simp
  from update_body_empty[OF this, of bar vp] True l show ?thesis
    by (simp add: update_cmd_eq[OF opened] file_write_def split: prod.splits sum.splits)
next
  case False
  with resume obtain db1 s t where sb: "sorted_by db0 ''Datetime'' True = Inr db1"
    and fd: "first_Datetime db1 = Inr s" and sp: "strptime s format = Some t"
    and l: "lower = Some t"
    by blast
  from load
  have "load_text strptime (delim args)
          (drop (pos \<lparr>content = store_text fs (db args), pos = 0\<rparr>)
                (content \<lparr>content = store_text fs (db args), pos = 0\<rparr>)) = Inr db0"
    by simp
  from update_body_nonempty[OF this False sb fd sp, of bar vp] False l show ?thesis
    by (simp add: update_cmd_eq[OF opened] file_write_def split: prod.splits sum.splits)
qed

lemma load_rows_stamps:
  "load_rows strptime names rows = Inr c \<Longrightarrow>
   list_all (\<lambda>r. case getitem r ''Datetime'' of Inl e \<Rightarrow> False | Inr s \<Rightarrow> strptime s format \<noteq> None) c"
  by (induction rows arbitrary: c)
     (auto simp: load_row_def split: sum.splits if_splits option.splits)

lemma load_text_stamps:
  "load_text strptime d text = Inr c \<Longrightarrow>
   list_all (\<lambda>r. case getitem r ''Datetime'' of Inl e \<Rightarrow> False | Inr s \<Rightarrow> strptime s format \<noteq> None) c"
  by (auto simp: load_text_def split: list.splits if_splits dest: load_rows_stamps)

text \<open>
  A collection that \<^verbatim>\<open>csv_to_dict\<close> has loaded has a parsable \<^verbatim>\<open>Datetime\<close> in
  every record: sorting it, reading the first \<^verbatim>\<open>Datetime\<close> and parsing it cannot
  fail.
\<close>

lemma load_resume_defined:
  assumes load: "load_text strptime d text = Inr db0" and ne: "db0 \<noteq> []"
  shows "\<exists>db1 s t. sorted_by db0 ''Datetime'' True = Inr db1 \<and> first_Datetime db1 = Inr s
           \<and> strptime s format = Some t"
proof -
  from load_text_stamps[OF load]
  have st: "list_all (\<lambda>r. case getitem r ''Datetime'' of
                         Inl e \<Rightarrow> False | Inr s \<Rightarrow> strptime s format \<noteq> None) db0" .
  then have "list_all (\<lambda>r. map_of r ''Datetime'' \<noteq> None) db0"
    by (auto simp: list_all_iff getitem_def split: option.splits)
  from keyed_total[OF this] obtain ks where k: "keyed ''Datetime'' db0 = Inr ks" ..
  define db1 where "db1 = map snd (stable_sort True ks)"
  have sb: "sorted_by db0 ''Datetime'' True = Inr db1"
    by (simp add: sorted_by_def k db1_def)
  from keyed_Inr_D[OF k] have m: "map snd ks = db0" by simp
  have "set (stable_sort True ks) = set ks" by (auto simp: stable_sort_def)
  then have "set db1 = set (map snd ks)" by (simp add: db1_def)
  with m have se: "set db1 = set db0" by simp
  with ne have "db1 \<noteq> []" by auto
  then obtain r rest where d: "db1 = r # rest" by (cases db1) auto
  with se have "r \<in> set db0" by auto
  with st have "case getitem r ''Datetime'' of
                   Inl e \<Rightarrow> False | Inr s \<Rightarrow> strptime s format \<noteq> None"
    by (simp add: list_all_iff)
  then obtain s where g: "getitem r ''Datetime'' = Inr s" and p: "strptime s format \<noteq> None"
    by (cases "getitem r ''Datetime''") auto
  from p obtain t where "strptime s format = Some t" by auto
  moreover from d g have "first_Datetime db1 = Inr s" by (simp add: first_Datetime_def)
  ultimately show ?thesis using sb by blast
qed

lemma sorted_by_reverse_first_is_max:
  assumes sb: "sorted_by c f True = Inr (r # rest)" and s: "map_of r f = Some s"
    and r': "r' \<in> set c" and d: "map_of r' f = Some d"
  shows "d \<le> s"
proof -
  from sorted_by_Inr_keyed[OF sb] obtain ks where k: "keyed f c = Inr ks"
    and o: "r # rest = map snd (stable_sort True ks)" by auto
  from keyed_Inr_D[OF k] have c: "map snd ks = c"
    and inv: "list_all (\<lambda>p. map_of (snd p) f = Some (fst p)) ks" by simp_all
  define S where "S = stable_sort True ks"
  have invS: "list_all (\<lambda>p. map_of (snd p) f = Some (fst p)) S"
    using inv by (simp add: S_def list_all_stable_sort)
  have setS: "set S = set ks" by (auto simp: S_def stable_sort_def)
  have desc: "sorted (rev (map fst S))" by (simp add: S_def stable_sort_def rev_map)
  from o obtain p S' where S: "S = p # S'" and p: "snd p = r" by (auto simp: S_def)
  from invS S p s have fp: "fst p = s" by simp
  from r' c obtain q where q: "q \<in> set ks" "snd q = r'" by auto
  with inv d have fq: "fst q = d" by (auto simp: list_all_iff)
  from q setS have "q \<in> set S" by simp
  then have "d \<in> set (map fst S)" using fq by force
  moreover from desc S fp have "\<forall>x\<in>set (map fst S). x \<le> s"
    by (auto simp: sorted_append)
  ultimately show ?thesis by blast
qed

text \<open>
  Claim C3. Let the store be one that can be opened and \<open>db0\<close> the collection loaded
  from it. If it is empty, the fetch is asked with no lower bound (and no upper
  bound). If it is not empty, and \<open>db1\<close> is \<open>db0\<close> sorted by \<^verbatim>\<open>Datetime\<close>
  descending, \<open>s\<close> the \<^verbatim>\<open>Datetime\<close> of its first record and \<open>t\<close> the timestamp
  \<^verbatim>\<open>strptime\<close> reads from \<open>s\<close> with the format \<^verbatim>\<open>%Y-%m-%d %H:%M:%S\<close>, the fetch
  is asked with lower bound \<open>t\<close> and no upper bound; \<open>s\<close> is the greatest
  \<^verbatim>\<open>Datetime\<close> of the store.
\<close>

theorem update_cmd_resume_point:
  assumes opened: "refused fs (db args) = None"
    and load: "load_text strptime (delim args) (store_text fs (db args)) = Inr db0"
  shows "format = ''%Y-%m-%d %H:%M:%S''
       \<and> (db0 = [] \<longrightarrow>
            requests (fst (snd (update_cmd strptime bar args vp fs))) = requests vp @ [(None, None)])
       \<and> (\<forall>db1 s t. db0 \<noteq> [] \<and> sorted_by db0 ''Datetime'' True = Inr db1
              \<and> first_Datetime db1 = Inr s \<and> strptime s format = Some t \<longrightarrow>
            requests (fst (snd (update_cmd strptime bar args vp fs))) = requests vp @ [(Some t, None)]
            \<and> (\<forall>r \<in> set db0. \<forall>d. map_of r ''Datetime'' = Some d \<longrightarrow> d \<le> s))"
proof (intro conjI impI allI ballI)
  show "format = ''%Y-%m-%d %H:%M:%S''" by (simp add: format_def)
next
  assume e: "db0 = []"
  have "fst (snd (update_cmd strptime bar args vp fs))
      = snd (getarchives bar (args\<lparr>start := None, stop := None\<rparr>) vp)"
    using load e
    by (simp add: update_cmd_eq[OF opened] update_body_empty split: prod.splits sum.splits)
  then show "requests (fst (snd (update_cmd strptime bar args vp fs))) = requests vp @ [(None, None)]"
    by (simp add: getarchives_requests)
next
  fix db1 s t
  assume a: "db0 \<noteq> [] \<and> sorted_by db0 ''Datetime'' True = Inr db1
              \<and> first_Datetime db1 = Inr s \<and> strptime s format = Some t"
  have "fst (snd (update_cmd strptime bar args vp fs))
      = snd (getarchives bar (args\<lparr>start := Some t, stop := None\<rparr>) vp)"
    using load a
    by (simp add: update_cmd_eq[OF opened]
                  update_body_nonempty[where ?db0.0=db0 and ?db1.0=db1 and s=s and t=t]
             split: prod.splits sum.splits)
  then show "requests (fst (snd (update_cmd strptime bar args vp fs))) = requests vp @ [(Some t, None)]"
    by (simp add: getarchives_requests)
next
  fix db1 s t r d
  assume a: "db0 \<noteq> [] \<and> sorted_by db0 ''Datetime'' True = Inr db1
              \<and> first_Datetime db1 = Inr s \<and> strptime s format = Some t"
    and r: "r \<in> set db0" and d: "map_of r ''Datetime'' = Some d"
  from a obtain r1 rest where db1: "db1 = r1 # rest" and s: "map_of r1 ''Datetime'' = Some s"
    by (auto simp: first_Datetime_def getitem_def split: list.splits option.splits)
  from a db1 have "sorted_by db0 ''Datetime'' True = Inr (r1 # rest)" by simp
  from sorted_by_reverse_first_is_max[OF this s r d] show "d \<le> s" .
qed

theorem update_cmd_resume_point_witness:
  "refused scenario_files (db scenario_args) = None
   \<and> load_text strptime_padded (delim scenario_args) (store_text scenario_files (db scenario_args))
     = Inr [[(''Datetime'', ''2024-01-01 00:00:00''), (''Temp'', ''20'')]]
   \<and> requests (fst (snd (update_cmd strptime_padded bounded_bar scenario_args scenario_device scenario_files)))
       = requests scenario_device @ [(Some (2024, 1, 1, 0, 0, 0), None)]
   \<and> refused Map.empty (db scenario_args) = None
   \<and> load_text strptime_padded (delim scenario_args) (store_text Map.empty (db scenario_args))
       = Inr []
   \<and> requests (fst (snd (update_cmd strptime_padded bounded_bar scenario_args scenario_device Map.empty)))
       = requests scenario_device @ [(None, None)]"
proof -
  let ?db0 = "[[(''Datetime'', ''2024-01-01 00:00:00''), (''Temp'', ''20'')]]"
  have o: "refused scenario_files (db scenario_args) = None" by code_simp
  have l: "load_text strptime_padded (delim scenario_args)
             (store_text scenario_files (db scenario_args)) = Inr ?db0"
    by code_simp
  have s: "sorted_by ?db0 ''Datetime'' True = Inr ?db0" by code_simp
  have f: "first_Datetime ?db0 = Inr ''2024-01-01 00:00:00''" by code_simp
  have p: "strptime_padded ''2024-01-01 00:00:00'' format = Some (2024, 1, 1, 0, 0, 0)"
    by code_simp
  have o': "refused Map.empty (db scenario_args) = None" by (simp add: refused_def)
  have e: "load_text strptime_padded (delim scenario_args) (store_text Map.empty (db scenario_args))
       = Inr []"
    by code_simp
  from update_cmd_resume_point[where vp = scenario_device and bar = bounded_bar, OF o l,
         THEN conjunct2, THEN conjunct2, rule_format,
         of ?db0 "''2024-01-01 00:00:00''" "(2024, 1, 1, 0, 0, 0)"] s f p
  have 1: "requests (fst (snd (update_cmd strptime_padded bounded_bar scenario_args scenario_device scenario_files)))
       = requests scenario_device @ [(Some (2024, 1, 1, 0, 0, 0), None)]"
    by simp
  from update_cmd_resume_point[where vp = scenario_device and bar = bounded_bar, OF o' e,
         THEN conjunct2, THEN conjunct1]
  have 2: "requests (fst (snd (update_cmd strptime_padded bounded_bar scenario_args scenario_device Map.empty)))
       = requests scenario_device @ [(None, None)]"
    by simp
  from o l 1 o' e 2 show ?thesis by blast
qed

lemma update_cmd_files:
  "refused fs (db args) = None \<Longrightarrow>
   snd (snd (update_cmd strptime bar args vp fs))
     = fs(db args \<mapsto> File (content (snd (snd (update_body strptime bar args vp
                              \<lparr>content = store_text fs (db args), pos = 0\<rparr>)))))"
  by (simp add: update_cmd_eq split: prod.splits)

lemma update_cmd_raised:
  "refused fs (db args) = None \<Longrightarrow>
   fst (update_cmd strptime bar args vp fs)
     = fst (update_body strptime bar args vp \<lparr>content = store_text fs (db args), pos = 0\<rparr>)"
  by (simp add: update_cmd_eq split: prod.splits)

text \<open>
  Claim C5. Whatever the run does, and however it ends, the text of the store after
  \<^verbatim>\<open>update_cmd\<close> is the text before it followed by what the run wrote: the old
  text is kept as it is, in its place, and nothing is written but after it. No other
  file changes. A store that cannot be opened is left as it is, with every other
  file.
\<close>

theorem update_cmd_append_only:
  "\<exists>suffix. store_text (snd (snd (update_cmd strptime bar args vp fs))) (db args)
                = store_text fs (db args) @ suffix
           \<and> (refused fs (db args) = None \<longrightarrow>
                 snd (snd (update_cmd strptime bar args vp fs)) (db args)
                   = Some (File (store_text fs (db args) @ suffix)))
           \<and> (\<forall>e. refused fs (db args) = Some e \<longrightarrow>
                 snd (snd (update_cmd strptime bar args vp fs)) = fs)
           \<and> (\<forall>path. path \<noteq> db args \<longrightarrow>
                 snd (snd (update_cmd strptime bar args vp fs)) path = fs path)"
proof (cases "refused fs (db args)")
  case None
  obtain raised vp' f' where
    b: "update_body strptime bar args vp \<lparr>content = store_text fs (db args), pos = 0\<rparr>
          = (raised, vp', f')"
    by (cases "update_body strptime bar args vp \<lparr>content = store_text fs (db args), pos = 0\<rparr>")
  from update_body_appends[OF b] obtain suffix
    where c: "content f' = store_text fs (db args) @ suffix" by auto
  have k: "snd (snd (update_cmd strptime bar args vp fs))
             = fs(db args \<mapsto> File (store_text fs (db args) @ suffix))"
    by (simp add: update_cmd_files[OF None] b c)
  show ?thesis by (intro exI[of _ suffix]) (simp add: k None store_text_upd)
next
  case (Some e)
  then show ?thesis by (intro exI[of _ "[]"]) (simp add: update_cmd_refused)
qed

theorem update_cmd_append_only_witness:
  "refused scenario_files ''db.csv'' = None
   \<and> snd (snd (update_cmd strptime_padded bounded_bar scenario_args scenario_device scenario_files)) ''db.csv''
     = Some (File (store_text scenario_files ''db.csv''
             @ ''2024-01-01 00:00:00,20'' @ [LF] @ ''2024-01-01 00:05:00,21'' @ [LF]))
   \<and> snd (snd (update_cmd strptime_padded bounded_bar scenario_args scenario_device scenario_files)) ''log.txt''
     = scenario_files ''log.txt''
   \<and> refused refused_files ''db.csv'' = Some (PermissionError ''db.csv'')
   \<and> snd (snd (update_cmd strptime_padded bounded_bar scenario_args scenario_device refused_files))
     = refused_files"
proof -
  note a = update_cmd_append_only[of strptime_padded bounded_bar scenario_args scenario_device
             scenario_files]
  note r = update_cmd_append_only[of strptime_padded bounded_bar scenario_args scenario_device
             refused_files]
  have d: "db scenario_args = ''db.csv''" by (simp add: scenario_args_def)
  have o: "refused scenario_files ''db.csv'' = None" by code_simp
  have o': "refused refused_files ''db.csv'' = Some (PermissionError ''db.csv'')" by code_simp
  from a have "\<forall>path. path \<noteq> db scenario_args \<longrightarrow>
          snd (snd (update_cmd strptime_padded bounded_bar scenario_args scenario_device scenario_files)) path
            = scenario_files path"
    by blast
  moreover have "''log.txt'' \<noteq> db scenario_args" by code_simp
  ultimately have 1:
    "snd (snd (update_cmd strptime_padded bounded_bar scenario_args scenario_device scenario_files)) ''log.txt''
       = scenario_files ''log.txt''"
    by blast
  have 2:
    "snd (snd (update_cmd strptime_padded bounded_bar scenario_args scenario_device scenario_files)) ''db.csv''
     = Some (File (store_text scenario_files ''db.csv''
             @ ''2024-01-01 00:00:00,20'' @ [LF] @ ''2024-01-01 00:05:00,21'' @ [LF]))"
    by code_simp
  from r o' d have 3:
    "snd (snd (update_cmd strptime_padded bounded_bar scenario_args scenario_device refused_files))
       = refused_files"
    by auto
  from o 1 2 o' 3 show ?thesis by blast
qed

lemma update_cmd_error_keeps_store:
  assumes "fst (update_cmd strptime bar args vp fs) = Some e"
  shows "snd (snd (update_cmd strptime bar args vp fs))
           = (if refused fs (db args) = None then fs(db args \<mapsto> File (store_text fs (db args)))
              else fs)"
proof (cases "refused fs (db args)")
  case None
  obtain raised vp' f' where
    b: "update_body strptime bar args vp \<lparr>content = store_text fs (db args), pos = 0\<rparr>
          = (raised, vp', f')"
    by (cases "update_body strptime bar args vp \<lparr>content = store_text fs (db args), pos = 0\<rparr>")
  from assms have "raised = Some e" by (simp add: update_cmd_raised[OF None] b)
  with update_body_appends[OF b] have "content f' = store_text fs (db args)" by auto
  with None show ?thesis by (simp add: update_cmd_files b)
next
  case (Some e')
  then show ?thesis by (simp add: update_cmd_refused)
qed

lemma update_body_load_error:
  "load_text strptime (delim args) (drop (pos f) (content f)) = Inl e \<Longrightarrow>
   fst (update_body strptime bar args vp f) = Some e"
  by (simp add: update_body_def csv_to_dict_def)

lemma archive_loop_raises:
  "list_all (\<lambda>r. map_of r ''Datetime'' \<noteq> None) rs \<Longrightarrow>
   \<forall>n. step \<le> n \<and> n < step + length rs \<longrightarrow> pbar n = None \<Longrightarrow>
   archive_loop pbar step (map Inr rs @ Inl e # gen) A D = Inl e"
proof (induction rs arbitrary: step A D)
  case Nil
  then show ?case by simp
next
  case (Cons r rs)
  from Cons.prems have p: "pbar step = None" by simp
  from Cons.prems have rest: "\<forall>n. Suc step \<le> n \<and> n < Suc step + length rs \<longrightarrow> pbar n = None"
    by simp
  from Cons.prems have rs: "list_all (\<lambda>r. map_of r ''Datetime'' \<noteq> None) rs" by simp
  from Cons.prems obtain d where "map_of r ''Datetime'' = Some d" by auto
  with p Cons.IH[OF rs rest] show ?case by (simp add: getitem_def)
qed

lemma spec_fetch_raises:
  "list_all (\<lambda>r. map_of r ''Datetime'' \<noteq> None) rs \<Longrightarrow>
   spec_fetch (map Inr rs @ Inl e # gen) A S = Inl e"
  by (induction rs arbitrary: A S) auto

lemma getarchives_raises:
  assumes "archive_source vp (start args) (stop args) = map Inr rs @ Inl e # gen"
    and "list_all (\<lambda>r. map_of r ''Datetime'' \<noteq> None) rs"
    and "\<forall>n < length rs. bar 2600 n = None"
  shows "fst (getarchives bar args vp) = Inl e"
proof (cases "debug args")
  case True
  with assms(1,2) show ?thesis
    by (simp add: getarchives_def get_archives_def get_archives_generator_def spec_fetch_raises)
next
  case False
  from assms(3) have "\<forall>n. 0 \<le> n \<and> n < 0 + length rs \<longrightarrow> bar 2600 n = None" by simp
  from archive_loop_raises[OF assms(2) this] False assms(1) show ?thesis
    by (simp add: getarchives_def get_archives_generator_def)
qed

lemma main_update_raised:
  assumes "fst (update_cmd strptime bar args vp fs) = Some e"
  shows "main_update strptime bar (Inr vp) args fs
           = (if debug args then Raised e else ParserError (str e),
              snd (snd (update_cmd strptime bar args vp fs)))"
  using assms by (auto simp: main_update_def split: prod.splits option.splits)

text \<open>
  Claim C8, as the code has it. When \<^verbatim>\<open>update_cmd\<close> ends with an exception
  \<open>e\<close>, nothing has been written to the store: a store that was opened exists, with
  the text it had (none for a file the run created), and a store that could not be
  opened is as it was. With \<^verbatim>\<open>--debug\<close>, \<^verbatim>\<open>main\<close> lets \<open>e\<close> through as it is;
  without, \<^verbatim>\<open>main\<close> catches \<open>e\<close> and hands its text \<^verbatim>\<open>f'{e}'\<close> to
  \<^verbatim>\<open>parser.error\<close>: the caller gets the message and the exit status, not the
  exception. So it is with the exception of a failed connection. No step recovers
  from a failure: the exception of \<^verbatim>\<open>open\<close>, of the load, of the fetch and of the
  serialisation, in either branch, is the exception \<^verbatim>\<open>update_cmd\<close> ends with, and
  an exception the device raises while it yields records, or the progress bar when
  it is updated, is the one \<^verbatim>\<open>getarchives\<close> ends with. A collection that has been
  loaded and is not empty has a resume point: a missing \<^verbatim>\<open>Datetime\<close> or an
  unparsable timestamp in the store is an exception of the load.
\<close>

theorem update_cmd_error_aborts:
  "(fst (update_cmd strptime bar args vp fs) = Some e \<longrightarrow>
      snd (snd (update_cmd strptime bar args vp fs))
        = (if refused fs (db args) = None then fs(db args \<mapsto> File (store_text fs (db args)))
           else fs)
      \<and> store_text (snd (snd (update_cmd strptime bar args vp fs))) (db args)
          = store_text fs (db args)
      \<and> main_update strptime bar (Inr vp) args fs
          = (if debug args then Raised e else ParserError (str e),
             snd (snd (update_cmd strptime bar args vp fs))))
   \<and> main_update strptime bar (Inl e) args fs
        = (if debug args then Raised e else ParserError (str e), fs)
   \<and> (refused fs (db args) = Some e \<longrightarrow> fst (update_cmd strptime bar args vp fs) = Some e)
   \<and> (refused fs (db args) = None
        \<and> load_text strptime (delim args) (store_text fs (db args)) = Inl e \<longrightarrow>
        fst (update_cmd strptime bar args vp fs) = Some e)
   \<and> (\<forall>db0 lower. refused fs (db args) = None
          \<and> load_text strptime (delim args) (store_text fs (db args)) = Inr db0
          \<and> (db0 = [] \<longrightarrow> lower = None)
          \<and> (db0 \<noteq> [] \<longrightarrow>
               (\<exists>db1 s t. sorted_by db0 ''Datetime'' True = Inr db1 \<and> first_Datetime db1 = Inr s
                  \<and> strptime s format = Some t \<and> lower = Some t)) \<longrightarrow>
        (fst (getarchives bar (args\<lparr>start := lower, stop := None\<rparr>) vp) = Inl e \<longrightarrow>
           fst (update_cmd strptime bar args vp fs) = Some e)
        \<and> (\<forall>items. fst (getarchives bar (args\<lparr>start := lower, stop := None\<rparr>) vp) = Inr items
              \<and> to_csv items (delim args) (db0 = []) = Inl e \<longrightarrow>
              fst (update_cmd strptime bar args vp fs) = Some e))
   \<and> (\<forall>db0. load_text strptime (delim args) (store_text fs (db args)) = Inr db0 \<and> db0 \<noteq> [] \<longrightarrow>
        (\<exists>db1 s t. sorted_by db0 ''Datetime'' True = Inr db1 \<and> first_Datetime db1 = Inr s
           \<and> strptime s format = Some t))
   \<and> (\<forall>rs gen a. archive_source vp (start a) (stop a) = map Inr rs @ Inl e # gen
          \<and> list_all (\<lambda>r. map_of r ''Datetime'' \<noteq> None) rs
          \<and> (\<forall>n < length rs. bar 2600 n = None) \<longrightarrow>
        fst (getarchives bar a vp) = Inl e)
   \<and> (\<forall>rs r gen a. archive_source vp (start a) (stop a) = map Inr rs @ Inr r # gen
          \<and> list_all (\<lambda>r. map_of r ''Datetime'' \<noteq> None) rs
          \<and> (\<forall>n < length rs. bar 2600 n = None) \<and> bar 2600 (length rs) = Some e
          \<and> \<not> debug a \<longrightarrow>
        fst (getarchives bar a vp) = Inl e)"
proof (intro conjI impI allI; (elim conjE)?)
  assume r: "fst (update_cmd strptime bar args vp fs) = Some e"
  from update_cmd_error_keeps_store[OF r]
  show k: "snd (snd (update_cmd strptime bar args vp fs))
        = (if refused fs (db args) = None then fs(db args \<mapsto> File (store_text fs (db args)))
           else fs)" .
  then show "store_text (snd (snd (update_cmd strptime bar args vp fs))) (db args)
          = store_text fs (db args)"
    by (simp add: store_text_def)
  from main_update_raised[OF r]
  show "main_update strptime bar (Inr vp) args fs
          = (if debug args then Raised e else ParserError (str e),
             snd (snd (update_cmd strptime bar args vp fs)))" .
next
  show "main_update strptime bar (Inl e) args fs
        = (if debug args then Raised e else ParserError (str e), fs)"
    by (simp add: main_update_def)
next
  assume "refused fs (db args) = Some e"
  then show "fst (update_cmd strptime bar args vp fs) = Some e"
    by (simp add: update_cmd_refused)
next
  assume "refused fs (db args) = None"
    and "load_text strptime (delim args) (store_text fs (db args)) = Inl e"
  then show "fst (update_cmd strptime bar args vp fs) = Some e"
    by (simp add: update_cmd_raised update_body_load_error)
next
  fix db0 lower
  assume o: "refused fs (db args) = None"
    and l: "load_text strptime (delim args) (store_text fs (db args)) = Inr db0"
    and f: "db0 = [] \<longrightarrow> lower = None"
    and s: "db0 \<noteq> [] \<longrightarrow>
               (\<exists>db1 s t. sorted_by db0 ''Datetime'' True = Inr db1 \<and> first_Datetime db1 = Inr s
                  \<and> strptime s format = Some t \<and> lower = Some t)"
    and g: "fst (getarchives bar (args\<lparr>start := lower, stop := None\<rparr>) vp) = Inl e"
  from g show "fst (update_cmd strptime bar args vp fs) = Some e"
    unfolding update_cmd_window[OF o l f s] by (auto split: prod.splits sum.splits)
next
  fix db0 lower items
  assume o: "refused fs (db args) = None"
    and l: "load_text strptime (delim args) (store_text fs (db args)) = Inr db0"
    and f: "db0 = [] \<longrightarrow> lower = None"
    and s: "db0 \<noteq> [] \<longrightarrow>
               (\<exists>db1 s t. sorted_by db0 ''Datetime'' True = Inr db1 \<and> first_Datetime db1 = Inr s
                  \<and> strptime s format = Some t \<and> lower = Some t)"
    and g: "fst (getarchives bar (args\<lparr>start := lower, stop := None\<rparr>) vp) = Inr items"
    and t: "to_csv items (delim args) (db0 = []) = Inl e"
  from g t show "fst (update_cmd strptime bar args vp fs) = Some e"
    unfolding update_cmd_window[OF o l f s] by (auto split: prod.splits sum.splits)
next
  fix db0
  assume "load_text strptime (delim args) (store_text fs (db args)) = Inr db0" and "db0 \<noteq> []"
  then show "\<exists>db1 s t. sorted_by db0 ''Datetime'' True = Inr db1 \<and> first_Datetime db1 = Inr s
           \<and> strptime s format = Some t"
    by (rule load_resume_defined)
qed (simp_all add: getarchives_raises getarchives_bar_raises)

theorem update_cmd_error_aborts_witness:
  "fst (update_cmd strptime_padded bounded_bar scenario_args scenario_device malformed_files)
     = Some (MalformedStoreError ''header'')
   \<and> snd (snd (update_cmd strptime_padded bounded_bar scenario_args scenario_device malformed_files))
     = malformed_files(db scenario_args \<mapsto> File (store_text malformed_files (db scenario_args)))
   \<and> main_update strptime_padded bounded_bar (Inr scenario_device) scenario_args malformed_files
     = (ParserError ''header'',
        malformed_files(db scenario_args \<mapsto> File (store_text malformed_files (db scenario_args))))
   \<and> fst (update_cmd strptime_padded bounded_bar scenario_args failing_device scenario_files)
     = Some (ConnectivityError ''timeout'')
   \<and> snd (snd (update_cmd strptime_padded bounded_bar scenario_args failing_device scenario_files))
     = scenario_files(db scenario_args \<mapsto> File (store_text scenario_files (db scenario_args)))
   \<and> fst (update_cmd strptime_padded bounded_bar scenario_args ragged_device scenario_files)
     = Some (FieldNotFoundError ''Wind'')
   \<and> fst (update_cmd strptime_padded bounded_bar scenario_args scenario_device refused_files)
     = Some (PermissionError ''db.csv'')
   \<and> snd (snd (update_cmd strptime_padded bounded_bar scenario_args scenario_device refused_files))
     = refused_files"
proof -
  let ?db0 = "[[(''Datetime'', ''2024-01-01 00:00:00''), (''Temp'', ''20'')]]"
  let ?t = "(2024, 1, 1, 0, 0, 0) :: datetime"
  have o: "refused malformed_files (db scenario_args) = None" by code_simp
  have l: "load_text strptime_padded (delim scenario_args)
             (store_text malformed_files (db scenario_args)) = Inl (MalformedStoreError ''header'')"
    by code_simp
  have d: "\<not> debug scenario_args" by code_simp
  note m = update_cmd_error_aborts[of strptime_padded bounded_bar scenario_args scenario_device
             malformed_files "MalformedStoreError ''header''"]
  from m o l have 1: "fst (update_cmd strptime_padded bounded_bar scenario_args scenario_device malformed_files)
     = Some (MalformedStoreError ''header'')"
    by blast
  with m o d have 2:
    "snd (snd (update_cmd strptime_padded bounded_bar scenario_args scenario_device malformed_files))
       = malformed_files(db scenario_args \<mapsto> File (store_text malformed_files (db scenario_args)))
     \<and> main_update strptime_padded bounded_bar (Inr scenario_device) scenario_args malformed_files
       = (ParserError ''header'',
          malformed_files(db scenario_args \<mapsto> File (store_text malformed_files (db scenario_args))))"
    by simp
  have o': "refused scenario_files (db scenario_args) = None" by code_simp
  have l': "load_text strptime_padded (delim scenario_args)
             (store_text scenario_files (db scenario_args)) = Inr ?db0"
    by code_simp
  have w: "?db0 = [] \<longrightarrow> Some ?t = None" by simp
  have w': "?db0 \<noteq> [] \<longrightarrow>
               (\<exists>db1 s t. sorted_by ?db0 ''Datetime'' True = Inr db1 \<and> first_Datetime db1 = Inr s
                  \<and> strptime_padded s format = Some t \<and> Some ?t = Some t)"
  proof -
    have "sorted_by ?db0 ''Datetime'' True = Inr ?db0" by code_simp
    moreover have "first_Datetime ?db0 = Inr ''2024-01-01 00:00:00''" by code_simp
    moreover have "strptime_padded ''2024-01-01 00:00:00'' format = Some ?t" by code_simp
    ultimately show ?thesis by blast
  qed
  have g: "fst (getarchives bounded_bar (scenario_args\<lparr>start := Some ?t, stop := None\<rparr>)
                  failing_device) = Inl (ConnectivityError ''timeout'')"
    by code_simp
  note c = update_cmd_error_aborts[of strptime_padded bounded_bar scenario_args failing_device
             scenario_files "ConnectivityError ''timeout''"]
  from c o' l' w w' g have 3:
    "fst (update_cmd strptime_padded bounded_bar scenario_args failing_device scenario_files)
       = Some (ConnectivityError ''timeout'')"
    by blast
  with c o' have 4:
    "snd (snd (update_cmd strptime_padded bounded_bar scenario_args failing_device scenario_files))
       = scenario_files(db scenario_args \<mapsto> File (store_text scenario_files (db scenario_args)))"
    by simp
  have g': "fst (getarchives bounded_bar (scenario_args\<lparr>start := Some ?t, stop := None\<rparr>)
                  ragged_device)
      = Inr [[(''Datetime'', ''2024-01-01 00:05:00''), (''Temp'', ''21'')],
             [(''Datetime'', ''2024-01-01 00:10:00''), (''Wind'', ''3'')]]"
    by code_simp
  have t': "to_csv [[(''Datetime'', ''2024-01-01 00:05:00''), (''Temp'', ''21'')],
                    [(''Datetime'', ''2024-01-01 00:10:00''), (''Wind'', ''3'')]]
              (delim scenario_args) (?db0 = []) = Inl (FieldNotFoundError ''Wind'')"
    by code_simp
  note q = update_cmd_error_aborts[of strptime_padded bounded_bar scenario_args ragged_device
             scenario_files "FieldNotFoundError ''Wind''"]
  from q o' l' w w' g' t' have 5:
    "fst (update_cmd strptime_padded bounded_bar scenario_args ragged_device scenario_files)
       = Some (FieldNotFoundError ''Wind'')"
    by blast
  have o'': "refused refused_files (db scenario_args) = Some (PermissionError ''db.csv'')"
    by code_simp
  note p = update_cmd_error_aborts[of strptime_padded bounded_bar scenario_args scenario_device
             refused_files "PermissionError ''db.csv''"]
  from p o'' have 6:
    "fst (update_cmd strptime_padded bounded_bar scenario_args scenario_device refused_files)
       = Some (PermissionError ''db.csv'')"
    by blast
  with p o'' have 7:
    "snd (snd (update_cmd strptime_padded bounded_bar scenario_args scenario_device refused_files))
       = refused_files"
    by simp
  from 1 2 3 4 5 6 7 show ?thesis by blast
qed

theorem main_update_reports_message_only:
  "fst (main_update strptime_padded bounded_bar (Inr scenario_device) scenario_args malformed_files)
     = ParserError ''header''
   \<and> fst (update_cmd strptime_padded bounded_bar scenario_args scenario_device malformed_files)
     = Some (MalformedStoreError ''header'')
   \<and> fst (main_update strptime_padded bounded_bar (Inl (ConnectivityError ''timeout''))
            scenario_args scenario_files)
     = ParserError ''timeout''
   \<and> fst (main_update strptime_padded bounded_bar (Inl (ValueError ''timeout''))
            scenario_args scenario_files)
     = ParserError ''timeout''"
  by code_simp

lemma to_csv_empty: "to_csv [] d h = Inr []"
  by (simp add: to_csv_def fieldnames_def)

lemma to_csv_header:
  "to_csv c d True = Inr out \<longleftrightarrow>
   (\<exists>body. to_csv c d False = Inr body \<and> out = encode_row d (fieldnames c) @ body)"
  by (auto simp: to_csv_def split: sum.splits)

lemma to_csv_rows:
  "to_csv c d False = Inr body \<longleftrightarrow>
   (\<exists>rows. rows_of (fieldnames c) c = Inr rows \<and> body = concat (map (encode_row d) rows))"
  by (auto simp: to_csv_def split: sum.splits)

lemma rows_of_length: "rows_of names c = Inr rows \<Longrightarrow> length rows = length c"
  by (induction c arbitrary: rows) (auto split: sum.splits)

lemma encode_row_last:
  "names \<noteq> [] \<Longrightarrow> encode_row d names \<noteq> [] \<and> last (encode_row d names) = LF"
  by (induction d names rule: encode_row.induct) auto

lemma header_of_batch:
  assumes "fst (getarchives bar args vp) = Inr items" and "items \<noteq> []"
  shows "fieldnames items = map fst (hd items) \<and> ''Datetime'' \<in> set (fieldnames items)
       \<and> encode_row d (fieldnames items) \<noteq> [] \<and> last (encode_row d (fieldnames items)) = LF"
proof -
  from assms(2) obtain r rest where i: "items = r # rest" by (cases items) auto
  from getarchives_has_Datetime[OF assms(1)] i have "map_of r ''Datetime'' \<noteq> None" by simp
  then have "''Datetime'' \<in> fst ` set r" by (simp add: map_of_eq_None_iff)
  with i have m: "''Datetime'' \<in> set (fieldnames items)" by (simp add: fieldnames_def)
  then have "fieldnames items \<noteq> []" by auto
  from encode_row_last[OF this, of d] m i show ?thesis by (simp add: fieldnames_def)
qed

lemma getarchives_empty_source:
  assumes "archive_source vp (start args) (stop args) = []"
  shows "fst (getarchives bar args vp) = Inr []"
  using assms
  by (simp add: getarchives_def get_archives_def get_archives_generator_def sorted_by_def
        stable_sort_def)

text \<open>
  Claim C7. When the device yields no record for the window asked, whatever the
  bounds, \<^verbatim>\<open>getarchives\<close> returns the empty collection and no error. When the
  device yields no record for the window \<open>(lower, None)\<close> of a pass of
  \<^verbatim>\<open>update_cmd\<close> (no lower bound for an empty store, the timestamp of the newest
  record otherwise), the pass ends without exception, with the empty batch, and
  leaves the text of the store as it was.
\<close>

theorem empty_fetch_leaves_store:
  "(archive_source vp (start args) (stop args) = [] \<longrightarrow> fst (getarchives bar args vp) = Inr [])
   \<and> (\<forall>db0 lower. refused fs (db args) = None
          \<and> load_text strptime (delim args) (store_text fs (db args)) = Inr db0
          \<and> (db0 = [] \<longrightarrow> lower = None)
          \<and> (db0 \<noteq> [] \<longrightarrow>
               (\<exists>db1 s t. sorted_by db0 ''Datetime'' True = Inr db1 \<and> first_Datetime db1 = Inr s
                  \<and> strptime s format = Some t \<and> lower = Some t))
          \<and> archive_source vp lower None = [] \<longrightarrow>
        fst (update_cmd strptime bar args vp fs) = None
        \<and> fst (getarchives bar (args\<lparr>start := lower, stop := None\<rparr>) vp) = Inr []
        \<and> snd (snd (update_cmd strptime bar args vp fs))
            = fs(db args \<mapsto> File (store_text fs (db args)))
        \<and> store_text (snd (snd (update_cmd strptime bar args vp fs))) (db args)
            = store_text fs (db args))"
proof (intro conjI impI allI; (elim conjE)?)
  assume "archive_source vp (start args) (stop args) = []"
  then show "fst (getarchives bar args vp) = Inr []" by (rule getarchives_empty_source)
next
  fix db0 lower
  assume o: "refused fs (db args) = None"
    and l: "load_text strptime (delim args) (store_text fs (db args)) = Inr db0"
    and f: "db0 = [] \<longrightarrow> lower = None"
    and s: "db0 \<noteq> [] \<longrightarrow>
               (\<exists>db1 s t. sorted_by db0 ''Datetime'' True = Inr db1 \<and> first_Datetime db1 = Inr s
                  \<and> strptime s format = Some t \<and> lower = Some t)"
    and e: "archive_source vp lower None = []"
  from e show g: "fst (getarchives bar (args\<lparr>start := lower, stop := None\<rparr>) vp) = Inr []"
    by (intro getarchives_empty_source) simp
  from g show "fst (update_cmd strptime bar args vp fs) = None"
    unfolding update_cmd_window[OF o l f s]
    by (auto simp: to_csv_empty split: prod.splits sum.splits)
  from g show k: "snd (snd (update_cmd strptime bar args vp fs))
            = fs(db args \<mapsto> File (store_text fs (db args)))"
    unfolding update_cmd_window[OF o l f s]
    by (auto simp: to_csv_empty split: prod.splits sum.splits)
  show "store_text (snd (snd (update_cmd strptime bar args vp fs))) (db args)
            = store_text fs (db args)"
    unfolding k by (simp add: store_text_def)
qed

theorem empty_fetch_leaves_store_witness:
  "archive_source caught_up_device (start scenario_args) (stop scenario_args) \<noteq> []
   \<and> archive_source caught_up_device (Some (2024, 1, 1, 0, 0, 0)) None = []
   \<and> fst (getarchives bounded_bar
            (scenario_args\<lparr>start := Some (2024, 1, 1, 0, 0, 0), stop := None\<rparr>) caught_up_device)
       = Inr []
   \<and> fst (update_cmd strptime_padded bounded_bar scenario_args caught_up_device scenario_files)
       = None
   \<and> store_text (snd (snd (update_cmd strptime_padded bounded_bar scenario_args caught_up_device
                             scenario_files))) (db scenario_args)
       = ''Datetime,Temp'' @ [LF] @ ''2024-01-01 00:00:00,20'' @ [LF]
   \<and> archive_source silent_device None None = []
   \<and> store_text (snd (snd (update_cmd strptime_padded bounded_bar scenario_args silent_device
                             Map.empty))) (db scenario_args)
       = []"
proof -
  let ?db0 = "[[(''Datetime'', ''2024-01-01 00:00:00''), (''Temp'', ''20'')]]"
  let ?t = "(2024, 1, 1, 0, 0, 0) :: datetime"
  have n: "archive_source caught_up_device (start scenario_args) (stop scenario_args) \<noteq> []"
    by (simp add: caught_up_device_def scenario_args_def scenario_records_def)
  have e: "archive_source caught_up_device (Some ?t) None = []"
    by (simp add: caught_up_device_def)
  have o: "refused scenario_files (db scenario_args) = None" by code_simp
  have l: "load_text strptime_padded (delim scenario_args)
             (store_text scenario_files (db scenario_args)) = Inr ?db0"
    by code_simp
  have w: "?db0 = [] \<longrightarrow> Some ?t = None" by simp
  have w': "?db0 \<noteq> [] \<longrightarrow>
               (\<exists>db1 s t. sorted_by ?db0 ''Datetime'' True = Inr db1 \<and> first_Datetime db1 = Inr s
                  \<and> strptime_padded s format = Some t \<and> Some ?t = Some t)"
  proof -
    have "sorted_by ?db0 ''Datetime'' True = Inr ?db0" by code_simp
    moreover have "first_Datetime ?db0 = Inr ''2024-01-01 00:00:00''" by code_simp
    moreover have "strptime_padded ''2024-01-01 00:00:00'' format = Some ?t" by code_simp
    ultimately show ?thesis by blast
  qed
  have t: "store_text scenario_files (db scenario_args)
       = ''Datetime,Temp'' @ [LF] @ ''2024-01-01 00:00:00,20'' @ [LF]"
    by code_simp
  note c = empty_fetch_leaves_store[of caught_up_device scenario_args bounded_bar scenario_files
             strptime_padded]
  from c o l w w' e
  have 1: "fst (update_cmd strptime_padded bounded_bar scenario_args caught_up_device scenario_files)
             = None
        \<and> fst (getarchives bounded_bar (scenario_args\<lparr>start := Some ?t, stop := None\<rparr>)
                 caught_up_device) = Inr []
        \<and> store_text (snd (snd (update_cmd strptime_padded bounded_bar scenario_args
                                  caught_up_device scenario_files))) (db scenario_args)
            = store_text scenario_files (db scenario_args)"
    by blast
  have e': "archive_source silent_device None None = []" by (simp add: silent_device_def)
  have o': "refused Map.empty (db scenario_args) = None" by (simp add: refused_def)
  have l': "load_text strptime_padded (delim scenario_args)
              (store_text Map.empty (db scenario_args)) = Inr []"
    by code_simp
  have t': "store_text Map.empty (db scenario_args) = []" by (simp add: store_text_def)
  note c' = empty_fetch_leaves_store[of silent_device scenario_args bounded_bar Map.empty
              strptime_padded]
  from c' o' l' e'
  have 2: "store_text (snd (snd (update_cmd strptime_padded bounded_bar scenario_args
                                  silent_device Map.empty))) (db scenario_args)
            = store_text Map.empty (db scenario_args)"
    by blast
  from n e 1 t e' 2 t' show ?thesis by simp
qed

text \<open>
  Claim C10, as the code has it. When the store opens and the collection loaded from
  it has no record, which is the case of a file that holds a header row only,
  \<^verbatim>\<open>update_cmd\<close> asks the fetch with no lower and no upper bound and appends
  the batch serialised with its header row: the text written is the header row of
  the batch followed by its data rows. For a batch with a record the header row is
  a row of text, ended by a newline, that names \<^verbatim>\<open>Datetime\<close>; for the empty batch
  nothing is written, no header row either.
\<close>

theorem update_cmd_empty_store:
  assumes opened: "refused fs (db args) = None"
    and load: "load_text strptime (delim args) (store_text fs (db args)) = Inr []"
  shows "requests (fst (snd (update_cmd strptime bar args vp fs))) = requests vp @ [(None, None)]
       \<and> (\<forall>items out. fst (getarchives bar (args\<lparr>start := None, stop := None\<rparr>) vp) = Inr items
              \<and> to_csv items (delim args) True = Inr out \<longrightarrow>
            fst (update_cmd strptime bar args vp fs) = None
            \<and> snd (snd (update_cmd strptime bar args vp fs)) (db args)
                = Some (File (store_text fs (db args) @ out))
            \<and> (\<exists>body. to_csv items (delim args) False = Inr body
                  \<and> out = encode_row (delim args) (fieldnames items) @ body)
            \<and> (items \<noteq> [] \<longrightarrow>
                  ''Datetime'' \<in> set (fieldnames items)
                  \<and> encode_row (delim args) (fieldnames items) \<noteq> []
                  \<and> last (encode_row (delim args) (fieldnames items)) = LF)
            \<and> (items = [] \<longrightarrow> out = []))"
proof (intro conjI impI allI; (elim conjE)?)
  have "fst (snd (update_cmd strptime bar args vp fs))
      = snd (getarchives bar (args\<lparr>start := None, stop := None\<rparr>) vp)"
    using load
    by (simp add: update_cmd_eq[OF opened] update_body_empty split: prod.splits sum.splits)
  then show "requests (fst (snd (update_cmd strptime bar args vp fs))) = requests vp @ [(None, None)]"
    by (simp add: getarchives_requests)
next
  fix items out
  assume g: "fst (getarchives bar (args\<lparr>start := None, stop := None\<rparr>) vp) = Inr items"
    and t: "to_csv items (delim args) True = Inr out"
  show "fst (update_cmd strptime bar args vp fs) = None"
    using load g t
    by (auto simp: update_cmd_eq[OF opened] update_body_empty split: prod.splits sum.splits)
  show "snd (snd (update_cmd strptime bar args vp fs)) (db args)
                = Some (File (store_text fs (db args) @ out))"
    using load g t
    by (auto simp: update_cmd_eq[OF opened] update_body_empty file_write_def
             split: prod.splits sum.splits)
  from t show "\<exists>body. to_csv items (delim args) False = Inr body
                  \<and> out = encode_row (delim args) (fieldnames items) @ body"
    by (simp add: to_csv_header)
  show "''Datetime'' \<in> set (fieldnames items)" if "items \<noteq> []"
    using header_of_batch[OF g that, of "delim args"] by blast
  show "encode_row (delim args) (fieldnames items) \<noteq> []" if "items \<noteq> []"
    using header_of_batch[OF g that, of "delim args"] by blast
  show "last (encode_row (delim args) (fieldnames items)) = LF" if "items \<noteq> []"
    using header_of_batch[OF g that, of "delim args"] by blast
  show "out = []" if "items = []"
    using t that by (simp add: to_csv_empty)
qed

theorem update_cmd_empty_store_witness:
  "refused header_only_files (db scenario_args) = None
   \<and> load_text strptime_padded (delim scenario_args) (store_text header_only_files (db scenario_args))
     = Inr []
   \<and> requests (fst (snd (update_cmd strptime_padded bounded_bar scenario_args scenario_device header_only_files)))
       = [(None, None)]
   \<and> fst (update_cmd strptime_padded bounded_bar scenario_args scenario_device header_only_files) = None
   \<and> snd (snd (update_cmd strptime_padded bounded_bar scenario_args scenario_device header_only_files))
        (db scenario_args)
       = Some (File (''Datetime,Temp'' @ [LF] @ ''Datetime,Temp'' @ [LF]
               @ ''2024-01-01 00:00:00,20'' @ [LF] @ ''2024-01-01 00:05:00,21'' @ [LF]))"
proof -
  have o: "refused header_only_files (db scenario_args) = None" by code_simp
  have l: "load_text strptime_padded (delim scenario_args)
             (store_text header_only_files (db scenario_args)) = Inr []"
    by code_simp
  have g: "fst (getarchives bounded_bar (scenario_args\<lparr>start := None, stop := None\<rparr>) scenario_device)
             = Inr scenario_records"
    by code_simp
  have t: "to_csv scenario_records (delim scenario_args) True
             = Inr (''Datetime,Temp'' @ [LF]
                    @ ''2024-01-01 00:00:00,20'' @ [LF] @ ''2024-01-01 00:05:00,21'' @ [LF])"
    by code_simp
  have s: "store_text header_only_files (db scenario_args) = ''Datetime,Temp'' @ [LF]"
    by code_simp
  have r: "requests scenario_device = []" by code_simp
  from update_cmd_empty_store[where vp = scenario_device and bar = bounded_bar, OF o l] g t
  have "requests (fst (snd (update_cmd strptime_padded bounded_bar scenario_args scenario_device
                              header_only_files)))
          = requests scenario_device @ [(None, None)]
      \<and> fst (update_cmd strptime_padded bounded_bar scenario_args scenario_device header_only_files)
          = None
      \<and> snd (snd (update_cmd strptime_padded bounded_bar scenario_args scenario_device
                    header_only_files)) (db scenario_args)
          = Some (File (store_text header_only_files (db scenario_args)
                        @ ''Datetime,Temp'' @ [LF]
                        @ ''2024-01-01 00:00:00,20'' @ [LF] @ ''2024-01-01 00:05:00,21'' @ [LF]))"
    by blast
  with o l s r show ?thesis by simp
qed

theorem update_cmd_header_only_empty_batch:
  "load_text strptime_padded (delim scenario_args) (store_text header_only_files (db scenario_args))
     = Inr []
   \<and> fst (getarchives bounded_bar (scenario_args\<lparr>start := None, stop := None\<rparr>) silent_device)
       = Inr []
   \<and> fst (update_cmd strptime_padded bounded_bar scenario_args silent_device header_only_files)
       = None
   \<and> snd (snd (update_cmd strptime_padded bounded_bar scenario_args silent_device header_only_files))
        ''db.csv''
       = Some (File (''Datetime,Temp'' @ [LF]))"
  by code_simp

text \<open>
  Claim C4, as the code has it. Let the store open and load to the collection
  \<open>db0\<close>, let \<open>(lower, None)\<close> be the window of the pass (no lower bound for an
  empty \<open>db0\<close>, the timestamp of its newest record otherwise), \<open>items\<close> the batch
  \<^verbatim>\<open>getarchives\<close> returns for it and \<open>rows\<close> its data rows. Then the run ends
  without exception and the text appended to the store is the header row of the
  batch followed by its data rows when \<open>db0\<close> is empty, and the data rows alone,
  one for every record, when \<open>db0\<close> holds a record. The header row of a batch with a
  record is a row of text, ended by a newline, that names the fields of the first
  record, \<^verbatim>\<open>Datetime\<close> among them. For the empty batch nothing is appended: no
  header row either, whatever the store.
\<close>

theorem update_cmd_header_iff_empty_store:
  assumes opened: "refused fs (db args) = None"
    and load: "load_text strptime (delim args) (store_text fs (db args)) = Inr db0"
    and first: "db0 = [] \<longrightarrow> lower = None"
    and resume: "db0 \<noteq> [] \<longrightarrow>
       (\<exists>db1 s t. sorted_by db0 ''Datetime'' True = Inr db1 \<and> first_Datetime db1 = Inr s
          \<and> strptime s format = Some t \<and> lower = Some t)"
    and fetch: "fst (getarchives bar (args\<lparr>start := lower, stop := None\<rparr>) vp) = Inr items"
    and rows: "rows_of (fieldnames items) items = Inr rows"
  shows "fst (update_cmd strptime bar args vp fs) = None
       \<and> length rows = length items
       \<and> snd (snd (update_cmd strptime bar args vp fs)) (db args)
           = Some (File (store_text fs (db args)
                         @ (if db0 = [] then encode_row (delim args) (fieldnames items) else [])
                         @ concat (map (encode_row (delim args)) rows)))
       \<and> (items \<noteq> [] \<longrightarrow>
             fieldnames items = map fst (hd items)
             \<and> ''Datetime'' \<in> set (fieldnames items)
             \<and> encode_row (delim args) (fieldnames items) \<noteq> []
             \<and> last (encode_row (delim args) (fieldnames items)) = LF)
       \<and> (items = [] \<longrightarrow>
             snd (snd (update_cmd strptime bar args vp fs)) (db args)
               = Some (File (store_text fs (db args))))"
proof -
  from rows have t: "to_csv items (delim args) (db0 = [])
      = Inr ((if db0 = [] then encode_row (delim args) (fieldnames items) else [])
             @ concat (map (encode_row (delim args)) rows))"
    by (simp add: to_csv_def)
  from fetch t have 1: "fst (update_cmd strptime bar args vp fs) = None"
    unfolding update_cmd_window[OF opened load first resume]
    by (auto split: prod.splits sum.splits)
  from fetch t have 2: "snd (snd (update_cmd strptime bar args vp fs)) (db args)
           = Some (File (store_text fs (db args)
                         @ (if db0 = [] then encode_row (delim args) (fieldnames items) else [])
                         @ concat (map (encode_row (delim args)) rows)))"
    unfolding update_cmd_window[OF opened load first resume]
    by (auto split: prod.splits sum.splits)
  have 3: "items \<noteq> [] \<longrightarrow>
             fieldnames items = map fst (hd items)
             \<and> ''Datetime'' \<in> set (fieldnames items)
             \<and> encode_row (delim args) (fieldnames items) \<noteq> []
             \<and> last (encode_row (delim args) (fieldnames items)) = LF"
    using header_of_batch[OF fetch, of "delim args"] by blast
  have 4: "items = [] \<longrightarrow>
             snd (snd (update_cmd strptime bar args vp fs)) (db args)
               = Some (File (store_text fs (db args)))"
  proof
    assume e: "items = []"
    with rows have "rows = []" by simp
    with e 2 show "snd (snd (update_cmd strptime bar args vp fs)) (db args)
               = Some (File (store_text fs (db args)))"
      by (simp add: fieldnames_def)
  qed
  from 1 rows_of_length[OF rows] 2 3 4 show ?thesis by blast
qed

theorem update_cmd_header_iff_empty_store_witness:
  "snd (snd (update_cmd strptime_padded bounded_bar scenario_args scenario_device scenario_files))
     (db scenario_args)
     = Some (File (''Datetime,Temp'' @ [LF] @ ''2024-01-01 00:00:00,20'' @ [LF]
                   @ ''2024-01-01 00:00:00,20'' @ [LF] @ ''2024-01-01 00:05:00,21'' @ [LF]))
   \<and> snd (snd (update_cmd strptime_padded bounded_bar scenario_args scenario_device Map.empty))
       (db scenario_args)
     = Some (File (''Datetime,Temp'' @ [LF]
                   @ ''2024-01-01 00:00:00,20'' @ [LF] @ ''2024-01-01 00:05:00,21'' @ [LF]))"
proof -
  let ?db0 = "[[(''Datetime'', ''2024-01-01 00:00:00''), (''Temp'', ''20'')]]"
  let ?t = "(2024, 1, 1, 0, 0, 0) :: datetime"
  let ?rows = "[[''2024-01-01 00:00:00'', ''20''], [''2024-01-01 00:05:00'', ''21'']]"
  have o: "refused scenario_files (db scenario_args) = None" by code_simp
  have l: "load_text strptime_padded (delim scenario_args)
             (store_text scenario_files (db scenario_args)) = Inr ?db0"
    by code_simp
  have w: "?db0 = [] \<longrightarrow> Some ?t = None" by simp
  have w': "?db0 \<noteq> [] \<longrightarrow>
               (\<exists>db1 s t. sorted_by ?db0 ''Datetime'' True = Inr db1 \<and> first_Datetime db1 = Inr s
                  \<and> strptime_padded s format = Some t \<and> Some ?t = Some t)"
  proof -
    have "sorted_by ?db0 ''Datetime'' True = Inr ?db0" by code_simp
    moreover have "first_Datetime ?db0 = Inr ''2024-01-01 00:00:00''" by code_simp
    moreover have "strptime_padded ''2024-01-01 00:00:00'' format = Some ?t" by code_simp
    ultimately show ?thesis by blast
  qed
  have g: "fst (getarchives bounded_bar (scenario_args\<lparr>start := Some ?t, stop := None\<rparr>)
                  scenario_device) = Inr scenario_records"
    by code_simp
  have r: "rows_of (fieldnames scenario_records) scenario_records = Inr ?rows" by code_simp
  have s: "store_text scenario_files (db scenario_args)
             = ''Datetime,Temp'' @ [LF] @ ''2024-01-01 00:00:00,20'' @ [LF]"
    by code_simp
  have c: "concat (map (encode_row (delim scenario_args)) ?rows)
             = ''2024-01-01 00:00:00,20'' @ [LF] @ ''2024-01-01 00:05:00,21'' @ [LF]"
    by code_simp
  from update_cmd_header_iff_empty_store[OF o l w w' g r] s c
  have 1: "snd (snd (update_cmd strptime_padded bounded_bar scenario_args scenario_device
                       scenario_files)) (db scenario_args)
     = Some (File (''Datetime,Temp'' @ [LF] @ ''2024-01-01 00:00:00,20'' @ [LF]
                   @ ''2024-01-01 00:00:00,20'' @ [LF] @ ''2024-01-01 00:05:00,21'' @ [LF]))"
    by simp
  have o': "refused Map.empty (db scenario_args) = None" by (simp add: refused_def)
  have l': "load_text strptime_padded (delim scenario_args)
              (store_text Map.empty (db scenario_args)) = Inr []"
    by code_simp
  have v: "([] :: ListDict) = [] \<longrightarrow> (None :: datetime option) = None" by simp
  have v': "([] :: ListDict) \<noteq> [] \<longrightarrow>
               (\<exists>db1 s t. sorted_by [] ''Datetime'' True = Inr db1 \<and> first_Datetime db1 = Inr s
                  \<and> strptime_padded s format = Some t \<and> None = Some t)"
    by simp
  have g': "fst (getarchives bounded_bar (scenario_args\<lparr>start := None, stop := None\<rparr>)
                  scenario_device) = Inr scenario_records"
    by code_simp
  have s': "store_text Map.empty (db scenario_args) = []" by (simp add: store_text_def)
  have h: "encode_row (delim scenario_args) (fieldnames scenario_records) = ''Datetime,Temp'' @ [LF]"
    by code_simp
  from update_cmd_header_iff_empty_store[OF o' l' v v' g' r] s' c h
  have 2: "snd (snd (update_cmd strptime_padded bounded_bar scenario_args scenario_device
                       Map.empty)) (db scenario_args)
     = Some (File (''Datetime,Temp'' @ [LF]
                   @ ''2024-01-01 00:00:00,20'' @ [LF] @ ''2024-01-01 00:05:00,21'' @ [LF]))"
    by simp
  from 1 2 show ?thesis by blast
qed

theorem update_cmd_empty_batch_no_header:
  "load_text strptime_padded (delim scenario_args) (store_text Map.empty (db scenario_args))
     = Inr []
   \<and> fst (getarchives bounded_bar (scenario_args\<lparr>start := None, stop := None\<rparr>) silent_device)
       = Inr []
   \<and> fst (update_cmd strptime_padded bounded_bar scenario_args silent_device Map.empty) = None
   \<and> snd (snd (update_cmd strptime_padded bounded_bar scenario_args silent_device Map.empty))
        ''db.csv''
       = Some (File [])"
  by code_simp

subsection \<open>The CSV text read back\<close>

lemma scan_unquoted:
  "d \<notin> set v \<Longrightarrow> LF \<notin> set v \<Longrightarrow>
   scan d InField cur row (v @ rest) = scan d InField (cur @ v) row rest"
  by (induction v arbitrary: cur) auto

lemma scan_quoted:
  "scan d InQuoted cur row (escape_quotes v @ DQ # rest) = scan d QuoteSeen (cur @ v) row rest"
  by (induction v arbitrary: cur) auto

lemma scan_field_delim:
  assumes "d \<noteq> LF" "d \<noteq> DQ"
  shows "scan d StartField [] row (encode_field d v @ d # rest) = scan d StartField [] (row @ [v]) rest"
proof (cases "needs_quotes d v")
  case True
  then show ?thesis using assms by (simp add: encode_field_def scan_quoted)
next
  case False
  then have v: "d \<notin> set v" "LF \<notin> set v" "DQ \<notin> set v" by (auto simp: needs_quotes_def)
  show ?thesis
  proof (cases v)
    case Nil
    then show ?thesis using assms False by (simp add: encode_field_def)
  next
    case (Cons c v')
    with v have "scan d StartField [] row (v @ d # rest) = scan d InField [c] row (v' @ d # rest)"
      by auto
    also have "\<dots> = scan d InField ([c] @ v') row (d # rest)"
      using v Cons by (intro scan_unquoted) auto
    finally show ?thesis using False Cons assms by (simp add: encode_field_def)
  qed
qed

lemma scan_field_newline:
  assumes "d \<noteq> LF" "d \<noteq> DQ"
  shows "scan d StartField [] row (encode_field d v @ LF # rest)
           = (row @ [v]) # scan d StartField [] [] rest"
proof (cases "needs_quotes d v")
  case True
  then show ?thesis using assms by (simp add: encode_field_def scan_quoted)
next
  case False
  then have v: "d \<notin> set v" "LF \<notin> set v" "DQ \<notin> set v" by (auto simp: needs_quotes_def)
  show ?thesis
  proof (cases v)
    case Nil
    then show ?thesis using assms False by (simp add: encode_field_def)
  next
    case (Cons c v')
    with v have "scan d StartField [] row (v @ LF # rest) = scan d InField [c] row (v' @ LF # rest)"
      by auto
    also have "\<dots> = scan d InField ([c] @ v') row (LF # rest)"
      using v Cons by (intro scan_unquoted) auto
    finally show ?thesis using False Cons assms by (simp add: encode_field_def)
  qed
qed

lemma scan_row:
  assumes "d \<noteq> LF" "d \<noteq> DQ"
  shows "vs \<noteq> [] \<Longrightarrow>
         scan d StartField [] row (encode_row d vs @ rest) = (row @ vs) # scan d StartField [] [] rest"
proof (induction vs arbitrary: row)
  case Nil
  then show ?case by simp
next
  case (Cons v vs)
  show ?case
  proof (cases vs)
    case Nil
    then show ?thesis using scan_field_newline[OF assms] by simp
  next
    case (Cons w ws)
    then have "scan d StartField [] row (encode_row d (v # vs) @ rest)
             = scan d StartField [] (row @ [v]) (encode_row d vs @ rest)"
      using scan_field_delim[OF assms] by simp
    also have "\<dots> = ((row @ [v]) @ vs) # scan d StartField [] [] rest"
      using Cons by (intro Cons.IH) simp
    finally show ?thesis by simp
  qed
qed

lemma scan_rows:
  assumes "d \<noteq> LF" "d \<noteq> DQ"
  shows "list_all (\<lambda>vs. vs \<noteq> []) rows \<Longrightarrow>
         scan d StartField [] [] (concat (map (encode_row d) rows) @ rest)
           = rows @ scan d StartField [] [] rest"
  by (induction rows) (simp_all add: scan_row[OF assms])

lemma split_rows_encode:
  assumes "d \<noteq> LF" "d \<noteq> DQ" "list_all (\<lambda>vs. vs \<noteq> []) rows"
  shows "split_rows d (concat (map (encode_row d) rows)) = rows"
  using scan_rows[OF assms, of "[]"] by (simp add: split_rows_def)

lemma update_fresh: "k \<notin> fst ` set al \<Longrightarrow> AList.update k v al = al @ [(k, v)]"
  by (induction al) auto

lemma fold_update_distinct:
  "distinct (map fst kvs) \<Longrightarrow> fst ` set kvs \<inter> fst ` set acc = {} \<Longrightarrow>
   fold (\<lambda>(k, v) r. AList.update k v r) kvs acc = acc @ kvs"
proof (induction kvs arbitrary: acc)
  case Nil
  then show ?case by simp
next
  case (Cons kv kvs)
  obtain k v where kv: "kv = (k, v)" by (cases kv)
  from Cons.prems kv have fresh: "k \<notin> fst ` set acc" by auto
  have "fold (\<lambda>(k, v) r. AList.update k v r) (kv # kvs) acc
      = fold (\<lambda>(k, v) r. AList.update k v r) kvs (acc @ [(k, v)])"
    by (simp add: kv update_fresh[OF fresh])
  also have "\<dots> = (acc @ [(k, v)]) @ kvs"
    using Cons.prems kv by (intro Cons.IH) auto
  finally show ?case by (simp add: kv)
qed

lemma make_dict_zip:
  "distinct (map fst r) \<Longrightarrow> make_dict (map fst r) (map snd r) = r"
  by (simp add: make_dict_def fold_update_distinct zip_map_fst_snd)

lemma values_of_sub:
  "distinct (map fst r) \<Longrightarrow> set ns \<subseteq> fst ` set r \<Longrightarrow>
   values_of ns r = Inr (map (\<lambda>n. the (map_of r n)) ns)"
  by (induction ns) (auto simp: weak_map_of_SomeI split: option.splits)

lemma map_the_map_of:
  "distinct (map fst r) \<Longrightarrow> map (\<lambda>n. the (map_of r n)) (map fst r) = map snd r"
  by (induction r) (auto simp: image_iff)

lemma row_of_own_names:
  assumes "distinct (map fst r)"
  shows "row_of (map fst r) r = Inr (map snd r)"
proof -
  have "find (\<lambda>k. k \<notin> set (map fst r)) (map fst r) = None"
    by (simp add: find_None_iff)
  moreover have "values_of (map fst r) r = Inr (map snd r)"
    using values_of_sub[OF assms, of "map fst r"] map_the_map_of[OF assms] by simp
  ultimately show ?thesis by (simp add: row_of_def)
qed

lemma rows_of_consistent:
  assumes "distinct names"
  shows "list_all (\<lambda>r. map fst r = names) c \<Longrightarrow> rows_of names c = Inr (map (map snd) c)"
proof (induction c)
  case Nil
  then show ?case by simp
next
  case (Cons r c)
  then have n: "map fst r = names" by simp
  with assms have "distinct (map fst r)" by simp
  from row_of_own_names[OF this] n have "row_of names r = Inr (map snd r)" by simp
  with Cons show ?case by simp
qed

lemma load_rows_consistent:
  assumes "distinct names"
  shows "list_all (\<lambda>r. map fst r = names
            \<and> (case getitem r ''Datetime'' of Inl e \<Rightarrow> False | Inr s \<Rightarrow> strptime s format \<noteq> None)) c
         \<Longrightarrow> load_rows strptime names (map (map snd) c) = Inr c"
proof (induction c)
  case Nil
  then show ?case by simp
next
  case (Cons r c)
  then have n: "map fst r = names"
    and st: "case getitem r ''Datetime'' of Inl e \<Rightarrow> False | Inr s \<Rightarrow> strptime s format \<noteq> None"
    by simp_all
  from n assms have d: "distinct (map fst r)" by simp
  have m: "make_dict names (map snd r) = r" using make_dict_zip[OF d] n by simp
  have l: "length (map snd r) = length names" using n by (metis length_map)
  have "load_row strptime names (map snd r) = Inr r"
    using st l by (auto simp: load_row_def m split: sum.splits option.splits)
  with Cons show ?case by simp
qed

lemma to_csv_consistent:
  assumes "list_all (\<lambda>r. map fst r = fieldnames c) c" and "distinct (fieldnames c)"
  shows "to_csv c d h = Inr ((if h then encode_row d (fieldnames c) else [])
                             @ concat (map (encode_row d) (map (map snd) c)))"
  using rows_of_consistent[OF assms(2,1)] by (simp add: to_csv_def)

lemma load_text_encoded:
  assumes d: "d \<noteq> LF" "d \<noteq> DQ"
    and names: "distinct names" "''Datetime'' \<in> set names"
    and c: "list_all (\<lambda>r. map fst r = names
            \<and> (case getitem r ''Datetime'' of Inl e \<Rightarrow> False | Inr s \<Rightarrow> strptime s format \<noteq> None)) c"
  shows "load_text strptime d (encode_row d names @ concat (map (encode_row d) (map (map snd) c)))
           = Inr c"
proof -
  from names have ne: "names \<noteq> []" by auto
  have rows: "list_all (\<lambda>vs. vs \<noteq> []) (names # map (map snd) c)"
    using c ne by (auto simp: list_all_iff)
  have "split_rows d (concat (map (encode_row d) (names # map (map snd) c)))
          = names # map (map snd) c"
    using d rows by (rule split_rows_encode)
  then have "split_rows d (encode_row d names @ concat (map (encode_row d) (map (map snd) c)))
          = names # map (map snd) c"
    by simp
  moreover have "load_rows strptime names (map (map snd) c) = Inr c"
    using load_rows_consistent[of names strptime c] names(1) c by blast
  ultimately show ?thesis using names
    by (simp add: load_text_def)
qed

text \<open>
  Claim C6. Let \<open>c\<close> be a collection that is not empty and has a consistent schema:
  every record has the fields of the first, in the same order, no field twice, and
  its \<^verbatim>\<open>Datetime\<close> is a timestamp \<^verbatim>\<open>strptime\<close> reads; let the delimiter be neither
  the newline nor the double quote. Then \<^verbatim>\<open>to_csv\<close> with the header gives a text,
  and \<^verbatim>\<open>csv_to_dict\<close> on a new file that holds this text gives \<open>c\<close> back: the same
  records with the same values in the same order.
\<close>

theorem csv_round_trip:
  assumes ne: "c \<noteq> []"
    and schema: "list_all (\<lambda>r. map fst r = fieldnames c) c"
    and dist: "distinct (fieldnames c)"
    and stamps: "list_all (\<lambda>r. case getitem r ''Datetime'' of
                                  Inl e \<Rightarrow> False | Inr s \<Rightarrow> strptime s format \<noteq> None) c"
    and d: "d \<noteq> LF" "d \<noteq> DQ"
  shows "\<exists>text. to_csv c d True = Inr text
           \<and> fst (csv_to_dict strptime
                   \<lparr>content = content (file_write \<lparr>content = [], pos = 0\<rparr> text), pos = 0\<rparr> d)
               = Inr c"
proof -
  let ?text = "encode_row d (fieldnames c) @ concat (map (encode_row d) (map (map snd) c))"
  have t: "to_csv c d True = Inr ?text"
    using to_csv_consistent[OF schema dist, of d True] by simp
  from ne obtain r c' where c: "c = r # c'" by (cases c) auto
  with schema stamps have "map fst r = fieldnames c"
    and "case getitem r ''Datetime'' of Inl e \<Rightarrow> False | Inr s \<Rightarrow> strptime s format \<noteq> None"
    by simp_all
  then obtain s where "map_of r ''Datetime'' = Some s" and n: "map fst r = fieldnames c"
    by (auto simp: getitem_def split: option.splits)
  then have "(''Datetime'', s) \<in> set r" by (intro map_of_SomeD)
  then have "''Datetime'' \<in> set (map fst r)" by force
  with n have dt: "''Datetime'' \<in> set (fieldnames c)" by simp
  have both: "list_all (\<lambda>r. map fst r = fieldnames c
            \<and> (case getitem r ''Datetime'' of Inl e \<Rightarrow> False | Inr s \<Rightarrow> strptime s format \<noteq> None)) c"
    using schema stamps by (auto simp: list_all_iff)
  have "load_text strptime d ?text = Inr c"
    using load_text_encoded[of d "fieldnames c" strptime c] d dist dt both by blast
  then have "fst (csv_to_dict strptime
                   \<lparr>content = content (file_write \<lparr>content = [], pos = 0\<rparr> ?text), pos = 0\<rparr> d)
               = Inr c"
    by (simp add: csv_to_dict_def file_write_def)
  with t show ?thesis by blast
qed

theorem csv_round_trip_witness:
  "scenario_records \<noteq> []
   \<and> list_all (\<lambda>r. map fst r = fieldnames scenario_records) scenario_records
   \<and> distinct (fieldnames scenario_records)
   \<and> (\<exists>text. to_csv scenario_records (CHR '','') True = Inr text
           \<and> fst (csv_to_dict strptime_padded
                   \<lparr>content = content (file_write \<lparr>content = [], pos = 0\<rparr> text), pos = 0\<rparr>
                   (CHR '',''))
               = Inr scenario_records)"
proof -
  have ne: "scenario_records \<noteq> []" by code_simp
  have schema: "list_all (\<lambda>r. map fst r = fieldnames scenario_records) scenario_records"
    by code_simp
  have dist: "distinct (fieldnames scenario_records)" by code_simp
  have stamps: "list_all (\<lambda>r. case getitem r ''Datetime'' of
                    Inl e \<Rightarrow> False | Inr s \<Rightarrow> strptime_padded s format \<noteq> None) scenario_records"
    by code_simp
  have d: "CHR '','' \<noteq> LF" "CHR '','' \<noteq> DQ" by simp_all
  from csv_round_trip[of scenario_records strptime_padded "CHR '',''"] ne schema dist stamps d
  show ?thesis by blast
qed

subsection \<open>The record at the resume point\<close>

lemma to_csv_append_rows:
  assumes schema: "list_all (\<lambda>r. map fst r = fieldnames c) (c @ items)" and ne: "c \<noteq> []"
    and dist: "distinct (fieldnames c)"
    and t0: "to_csv c d True = Inr text0" and t1: "to_csv items d False = Inr out"
  shows "text0 @ out = encode_row d (fieldnames c)
                        @ concat (map (encode_row d) (map (map snd) (c @ items)))"
proof -
  from schema have sc: "list_all (\<lambda>r. map fst r = fieldnames c) c"
    and si: "list_all (\<lambda>r. map fst r = fieldnames c) items" by simp_all
  from to_csv_consistent[OF sc dist, of d True] t0
  have 0: "text0 = encode_row d (fieldnames c) @ concat (map (encode_row d) (map (map snd) c))"
    by simp
  have 1: "out = concat (map (encode_row d) (map (map snd) items))"
  proof (cases items)
    case Nil
    with t1 show ?thesis by (simp add: to_csv_empty)
  next
    case (Cons r items')
    with si have f: "fieldnames items = fieldnames c" by (simp add: fieldnames_def)
    from si dist f have "list_all (\<lambda>r. map fst r = fieldnames items) items"
      and "distinct (fieldnames items)" by simp_all
    from to_csv_consistent[OF this, of d False] t1 show ?thesis by simp
  qed
  from 0 1 show ?thesis by simp
qed

lemma keyed_map_Datetime:
  "keyed f c = Inr ks \<Longrightarrow> map (\<lambda>r. map_of r f) c = map (Some \<circ> fst) ks"
  by (induction c arbitrary: ks) (auto split: option.splits sum.splits)

lemma find_same_keys:
  assumes f: "\<And>d. find (\<lambda>r. map_of r f = Some d) xs = find (\<lambda>r. map_of r f = Some d) ys"
    and xs: "list_all (\<lambda>r. map_of r f \<noteq> None) xs"
  shows "(\<lambda>r. map_of r f) ` set xs \<subseteq> (\<lambda>r. map_of r f) ` set ys"
proof
  fix v assume "v \<in> (\<lambda>r. map_of r f) ` set xs"
  then obtain r where r: "r \<in> set xs" "v = map_of r f" by auto
  with xs obtain d where d: "map_of r f = Some d" by (auto simp: list_all_iff)
  with r have "find (\<lambda>r. map_of r f = Some d) xs \<noteq> None" by (auto simp: find_None_iff)
  with f[of d] have "find (\<lambda>r. map_of r f = Some d) ys \<noteq> None" by simp
  then obtain r' where "r' \<in> set ys" "map_of r' f = Some d" by (auto simp: find_None_iff)
  with r d show "v \<in> (\<lambda>r. map_of r f) ` set ys" by force
qed

text \<open>
  Claim C1, as the code has it. Let the store open and load to a collection \<open>db0\<close>
  that is not empty, \<open>T\<close> be the \<^verbatim>\<open>Datetime\<close> of its newest record and \<open>t\<close> the timestamp
  \<^verbatim>\<open>strptime\<close> reads from it, and let the device yield the records \<open>rs\<close> from
  \<open>t\<close> on, the progress bar taking the index of each. Then \<open>T\<close> is the greatest
  \<^verbatim>\<open>Datetime\<close> of the store and the fetch is asked with lower bound \<open>t\<close> and no
  upper bound. The batch \<open>items\<close> holds one
  record, the first yielded, for every \<^verbatim>\<open>Datetime\<close> of \<open>rs\<close>, those of the store
  among them, and it is appended whole: no record is left out for being in the store
  already. For a store written by \<^verbatim>\<open>to_csv\<close> with the schema of the batch, the store
  afterwards loads to \<open>db0\<close> followed by \<open>items\<close>; it has one row for every
  \<^verbatim>\<open>Datetime\<close> exactly when \<open>db0\<close> has and the device yields no record with a
  \<^verbatim>\<open>Datetime\<close> of the store.
\<close>

theorem update_cmd_appends_whole_batch:
  assumes opened: "refused fs (db args) = None"
    and load: "load_text strptime (delim args) (store_text fs (db args)) = Inr db0"
    and ne: "db0 \<noteq> []"
    and srt: "sorted_by db0 ''Datetime'' True = Inr db1"
    and first: "first_Datetime db1 = Inr T"
    and parse: "strptime T format = Some t"
    and src: "archive_source vp (Some t) None = map Inr rs"
    and dt: "list_all (\<lambda>r. map_of r ''Datetime'' \<noteq> None) rs"
    and pb: "\<forall>n < length rs. bar 2600 n = None"
  shows "(\<forall>r \<in> set db0. \<forall>d. map_of r ''Datetime'' = Some d \<longrightarrow> d \<le> T)
    \<and> requests (fst (snd (update_cmd strptime bar args vp fs))) = requests vp @ [(Some t, None)]
    \<and> (\<exists>items ks. fst (getarchives bar (args\<lparr>start := Some t, stop := None\<rparr>) vp) = Inr items
         \<and> keyed ''Datetime'' items = Inr ks \<and> distinct (map fst ks)
         \<and> (\<forall>d. find (\<lambda>r. map_of r ''Datetime'' = Some d) items
                 = find (\<lambda>r. map_of r ''Datetime'' = Some d) rs)
         \<and> (\<forall>out. to_csv items (delim args) False = Inr out \<longrightarrow>
              fst (update_cmd strptime bar args vp fs) = None
              \<and> snd (snd (update_cmd strptime bar args vp fs)) (db args)
                  = Some (File (store_text fs (db args) @ out))
              \<and> (to_csv db0 (delim args) True = Inr (store_text fs (db args))
                 \<and> list_all (\<lambda>r. map fst r = fieldnames db0) (db0 @ items)
                 \<and> distinct (fieldnames db0)
                 \<and> list_all (\<lambda>r. case getitem r ''Datetime'' of
                                Inl e \<Rightarrow> False | Inr s \<Rightarrow> strptime s format \<noteq> None) items
                 \<and> delim args \<noteq> LF \<and> delim args \<noteq> DQ \<longrightarrow>
                   load_text strptime (delim args) (store_text fs (db args) @ out)
                     = Inr (db0 @ items)
                   \<and> (distinct (map (\<lambda>r. map_of r ''Datetime'') (db0 @ items)) \<longleftrightarrow>
                        distinct (map (\<lambda>r. map_of r ''Datetime'') db0)
                        \<and> (\<forall>r\<in>set rs. \<forall>r0\<in>set db0.
                              map_of r ''Datetime'' \<noteq> map_of r0 ''Datetime'')))))"
proof -
  let ?args = "args\<lparr>start := Some t, stop := None\<rparr>"
  let ?text = "store_text fs (db args)"
  let ?f = "\<lambda>r. map_of r ''Datetime''"
  from first obtain r1 rest where db1: "db1 = r1 # rest" and s: "map_of r1 ''Datetime'' = Some T"
    by (auto simp: first_Datetime_def getitem_def split: list.splits option.splits)
  have newest: "\<forall>r \<in> set db0. \<forall>d. map_of r ''Datetime'' = Some d \<longrightarrow> d \<le> T"
    using sorted_by_reverse_first_is_max[OF srt[unfolded db1] s] by blast
  let ?file = "\<lparr>content = ?text, pos = 0\<rparr>"
  have body: "update_body strptime bar args vp ?file =
     (case getarchives bar ?args vp of
        (Inl e, vp') \<Rightarrow> (Some e, vp', ?file\<lparr>pos := length (content ?file)\<rparr>)
      | (Inr items, vp') \<Rightarrow>
          (case to_csv items (delim args) False of
             Inl e \<Rightarrow> (Some e, vp', ?file\<lparr>pos := length (content ?file)\<rparr>)
           | Inr text \<Rightarrow> (None, vp', file_write (?file\<lparr>pos := length (content ?file)\<rparr>) text)))"
    using load ne srt first parse by (intro update_body_nonempty) simp_all
  have req: "requests (fst (snd (update_cmd strptime bar args vp fs))) = requests vp @ [(Some t, None)]"
  proof -
    have "fst (snd (update_cmd strptime bar args vp fs)) = snd (getarchives bar ?args vp)"
      by (simp add: update_cmd_eq[OF opened] body split: prod.splits sum.splits)
    then show ?thesis by (simp add: getarchives_requests)
  qed
  from getarchives_fetch[of vp ?args rs bar] src dt pb obtain items ks where
    g: "fst (getarchives bar ?args vp) = Inr items" and k: "keyed ''Datetime'' items = Inr ks"
    and dk: "distinct (map fst ks)"
    and fi: "\<And>d. find (\<lambda>r. map_of r ''Datetime'' = Some d) items
                 = find (\<lambda>r. map_of r ''Datetime'' = Some d) rs"
    by auto
  have appended: "fst (update_cmd strptime bar args vp fs) = None
      \<and> snd (snd (update_cmd strptime bar args vp fs)) (db args) = Some (File (?text @ out))"
    if t1: "to_csv items (delim args) False = Inr out" for out
    using g t1
    by (auto simp: update_cmd_eq[OF opened] body file_write_def split: prod.splits sum.splits)
  have codec: "load_text strptime (delim args) (?text @ out) = Inr (db0 @ items)
      \<and> (distinct (map ?f (db0 @ items)) \<longleftrightarrow>
            distinct (map ?f db0) \<and> (\<forall>r\<in>set rs. \<forall>r0\<in>set db0. ?f r \<noteq> ?f r0))"
    if t1: "to_csv items (delim args) False = Inr out"
      and t0: "to_csv db0 (delim args) True = Inr ?text"
      and schema: "list_all (\<lambda>r. map fst r = fieldnames db0) (db0 @ items)"
      and dist: "distinct (fieldnames db0)"
      and stamps: "list_all (\<lambda>r. case getitem r ''Datetime'' of
                                Inl e \<Rightarrow> False | Inr s \<Rightarrow> strptime s format \<noteq> None) items"
      and d: "delim args \<noteq> LF" "delim args \<noteq> DQ"
    for out
  proof
    have st0: "list_all (\<lambda>r. case getitem r ''Datetime'' of
                 Inl e \<Rightarrow> False | Inr s \<Rightarrow> strptime s format \<noteq> None) db0"
      using load by (rule load_text_stamps)
    from ne obtain r0 c' where c: "db0 = r0 # c'" by (cases db0) auto
    with schema st0 obtain s0 where "map_of r0 ''Datetime'' = Some s0"
      and n: "map fst r0 = fieldnames db0"
      by (auto simp: getitem_def split: option.splits)
    then have "(''Datetime'', s0) \<in> set r0" by (intro map_of_SomeD)
    then have "''Datetime'' \<in> set (map fst r0)" by force
    with n have dtn: "''Datetime'' \<in> set (fieldnames db0)" by simp
    have both: "list_all (\<lambda>r. map fst r = fieldnames db0
            \<and> (case getitem r ''Datetime'' of Inl e \<Rightarrow> False | Inr s \<Rightarrow> strptime s format \<noteq> None))
            (db0 @ items)"
      using schema st0 stamps by (auto simp: list_all_iff)
    have "?text @ out = encode_row (delim args) (fieldnames db0)
                        @ concat (map (encode_row (delim args)) (map (map snd) (db0 @ items)))"
      using schema ne dist t0 t1 by (rule to_csv_append_rows)
    then show "load_text strptime (delim args) (?text @ out) = Inr (db0 @ items)"
      using load_text_encoded[of "delim args" "fieldnames db0" strptime "db0 @ items"]
        d dist dtn both by simp
    have di: "distinct (map ?f items)"
      using dk by (simp add: keyed_map_Datetime[OF k] distinct_map comp_def inj_on_def)
    have hi: "list_all (\<lambda>r. map_of r ''Datetime'' \<noteq> None) items"
      using k by (rule keyed_has_field)
    have "?f ` set items \<subseteq> ?f ` set rs"
      using find_same_keys[of "''Datetime''" items rs] fi hi by blast
    moreover have "?f ` set rs \<subseteq> ?f ` set items"
      using find_same_keys[of "''Datetime''" rs items] fi dt by simp
    ultimately have im: "set (map ?f items) = ?f ` set rs" by auto
    have "distinct (map ?f (db0 @ items)) \<longleftrightarrow>
            distinct (map ?f db0) \<and> ?f ` set db0 \<inter> ?f ` set rs = {}"
      using di im by simp
    also have "?f ` set db0 \<inter> ?f ` set rs = {} \<longleftrightarrow>
                 (\<forall>r\<in>set rs. \<forall>r0\<in>set db0. ?f r \<noteq> ?f r0)"
      by (auto simp: disjoint_iff image_iff) metis
    finally show "distinct (map ?f (db0 @ items)) \<longleftrightarrow>
            distinct (map ?f db0) \<and> (\<forall>r\<in>set rs. \<forall>r0\<in>set db0. ?f r \<noteq> ?f r0)" .
  qed
  from newest req g k dk fi appended codec show ?thesis by blast
qed

theorem update_cmd_appends_whole_batch_witness:
  "refused scenario_files (db scenario_args) = None
   \<and> load_text strptime_padded (delim scenario_args) (store_text scenario_files (db scenario_args))
     = Inr [[(''Datetime'', ''2024-01-01 00:00:00''), (''Temp'', ''20'')]]
   \<and> requests (fst (snd (update_cmd strptime_padded bounded_bar scenario_args fresh_device scenario_files)))
       = [(Some (2024, 1, 1, 0, 0, 0), None)]
   \<and> fst (update_cmd strptime_padded bounded_bar scenario_args fresh_device scenario_files) = None
   \<and> load_text strptime_padded (delim scenario_args)
        (store_text (snd (snd (update_cmd strptime_padded bounded_bar scenario_args fresh_device
                                 scenario_files))) (db scenario_args))
       = Inr [[(''Datetime'', ''2024-01-01 00:00:00''), (''Temp'', ''20'')],
              [(''Datetime'', ''2024-01-01 00:05:00''), (''Temp'', ''21'')]]"
proof -
  let ?r0 = "[(''Datetime'', ''2024-01-01 00:00:00''), (''Temp'', ''20'')]"
  let ?r1 = "[(''Datetime'', ''2024-01-01 00:05:00''), (''Temp'', ''21'')]"
  let ?out = "''2024-01-01 00:05:00,21'' @ [LF]"
  let ?t = "(2024, 1, 1, 0, 0, 0) :: datetime"
  have o: "refused scenario_files (db scenario_args) = None" by code_simp
  have load: "load_text strptime_padded (delim scenario_args)
                (store_text scenario_files (db scenario_args)) = Inr [?r0]"
    by code_simp
  have ne: "[?r0] \<noteq> []" by simp
  have srt: "sorted_by [?r0] ''Datetime'' True = Inr [?r0]" by code_simp
  have first: "first_Datetime [?r0] = Inr ''2024-01-01 00:00:00''" by code_simp
  have parse: "strptime_padded ''2024-01-01 00:00:00'' format = Some ?t" by code_simp
  have src: "archive_source fresh_device (Some ?t) None = map Inr [?r1]"
    by (simp add: fresh_device_def)
  have dt: "list_all (\<lambda>r. map_of r ''Datetime'' \<noteq> None) [?r1]" by simp
  have g: "fst (getarchives bounded_bar (scenario_args\<lparr>start := Some ?t, stop := None\<rparr>) fresh_device)
             = Inr [?r1]"
    by code_simp
  have out: "to_csv [?r1] (delim scenario_args) False = Inr ?out" by code_simp
  have t0: "to_csv [?r0] (delim scenario_args) True
              = Inr (store_text scenario_files (db scenario_args))"
    by code_simp
  have schema: "list_all (\<lambda>r. map fst r = fieldnames [?r0]) ([?r0] @ [?r1])" by code_simp
  have dist: "distinct (fieldnames [?r0])" by code_simp
  have stamps: "list_all (\<lambda>r. case getitem r ''Datetime'' of
                  Inl e \<Rightarrow> False | Inr s \<Rightarrow> strptime_padded s format \<noteq> None) [?r1]"
    by code_simp
  have d: "delim scenario_args \<noteq> LF" "delim scenario_args \<noteq> DQ" by code_simp+
  have r: "requests fresh_device = []" by code_simp
  have pb: "\<forall>n < length [?r1]. bounded_bar 2600 n = None" by (simp add: bounded_bar_def)
  from update_cmd_appends_whole_batch[where strptime = strptime_padded and args = scenario_args
         and fs = scenario_files and bar = bounded_bar, OF o load ne srt first parse src dt pb]
  obtain items where
    req: "requests (fst (snd (update_cmd strptime_padded bounded_bar scenario_args fresh_device scenario_files)))
            = requests fresh_device @ [(Some ?t, None)]"
    and gi: "fst (getarchives bounded_bar (scenario_args\<lparr>start := Some ?t, stop := None\<rparr>) fresh_device)
               = Inr items"
    and rest: "\<And>out. to_csv items (delim scenario_args) False = Inr out \<Longrightarrow>
        fst (update_cmd strptime_padded bounded_bar scenario_args fresh_device scenario_files) = None
      \<and> snd (snd (update_cmd strptime_padded bounded_bar scenario_args fresh_device scenario_files))
            (db scenario_args)
          = Some (File (store_text scenario_files (db scenario_args) @ out))
      \<and> (to_csv [?r0] (delim scenario_args) True
            = Inr (store_text scenario_files (db scenario_args))
          \<and> list_all (\<lambda>r. map fst r = fieldnames [?r0]) ([?r0] @ items)
          \<and> distinct (fieldnames [?r0])
          \<and> list_all (\<lambda>r. case getitem r ''Datetime'' of
                  Inl e \<Rightarrow> False | Inr s \<Rightarrow> strptime_padded s format \<noteq> None) items
          \<and> delim scenario_args \<noteq> LF \<and> delim scenario_args \<noteq> DQ \<longrightarrow>
            load_text strptime_padded (delim scenario_args)
              (store_text scenario_files (db scenario_args) @ out) = Inr ([?r0] @ items))"
    by blast
  from g gi have items: "items = [?r1]" by simp
  from rest[of ?out] out items t0 schema dist stamps d
  have ok: "fst (update_cmd strptime_padded bounded_bar scenario_args fresh_device scenario_files) = None"
    and fin: "snd (snd (update_cmd strptime_padded bounded_bar scenario_args fresh_device scenario_files))
            (db scenario_args)
          = Some (File (store_text scenario_files (db scenario_args) @ ?out))"
    and ld: "load_text strptime_padded (delim scenario_args)
              (store_text scenario_files (db scenario_args) @ ?out) = Inr ([?r0] @ [?r1])"
    by simp_all
  from fin have "store_text (snd (snd (update_cmd strptime_padded bounded_bar scenario_args fresh_device
                                 scenario_files))) (db scenario_args)
                 = store_text scenario_files (db scenario_args) @ ?out"
    by (simp add: store_text_def)
  with o load req r ok ld show ?thesis by simp
qed

text \<open>
  The scenario of section 8 of the specification: the device yields the record of the
  store's newest \<^verbatim>\<open>Datetime\<close> again, and the store ends with that record twice.
\<close>

theorem update_cmd_duplicates_boundary_record:
  "fst (update_cmd strptime_padded bounded_bar scenario_args scenario_device scenario_files) = None
   \<and> requests (fst (snd (update_cmd strptime_padded bounded_bar scenario_args scenario_device scenario_files)))
       = [(Some (2024, 1, 1, 0, 0, 0), None)]
   \<and> load_text strptime_padded (CHR '','')
        (store_text (snd (snd (update_cmd strptime_padded bounded_bar scenario_args scenario_device
                                 scenario_files))) ''db.csv'')
       = Inr [[(''Datetime'', ''2024-01-01 00:00:00''), (''Temp'', ''20'')],
              [(''Datetime'', ''2024-01-01 00:00:00''), (''Temp'', ''20'')],
              [(''Datetime'', ''2024-01-01 00:05:00''), (''Temp'', ''21'')]]"
  by code_simp

end
